theory Spec2Isabelle
  imports Main "HOL-Library.AList" "HOL-Library.Word"
begin

section \<open>JavaScript values\<close>

text \<open>
  A JavaScript string is a sequence of UTF-16 code units. The built-ins used by the
  extension (\<^verbatim>\<open>JSON.stringify\<close>, \<^verbatim>\<open>btoa\<close>) look at the code units, so a string is
  a list of naturals; \<open>js\<close> embeds an ASCII literal.
\<close>

type_synonym jsstring = "nat list"

definition js :: "string \<Rightarrow> jsstring" where
  "js s = map of_char s"

text \<open>
  JSON values as they cross \<^verbatim>\<open>chrome.runtime\<close> messages and the WebSocket. Numbers are
  restricted to integers (timestamps, counters), objects keep their properties in
  enumeration order.
\<close>

datatype json =
    JNull
  | JBool bool
  | JNum int
  | JStr jsstring
  | JArr "json list"
  | JObj "(jsstring \<times> json) list"

subsection \<open>\<^verbatim>\<open>JSON.stringify\<close>\<close>

fun dec_digits :: "nat \<Rightarrow> jsstring" where
  "dec_digits n = (if n < 10 then [48 + n] else dec_digits (n div 10) @ [48 + n mod 10])"

declare dec_digits.simps [simp del]

definition hex_digit :: "nat \<Rightarrow> nat" where
  "hex_digit d = (if d < 10 then 48 + d else 87 + d)"

definition unicode_escape :: "nat \<Rightarrow> jsstring" where
  "unicode_escape c =
     [92, 117, hex_digit (c div 4096 mod 16), hex_digit (c div 256 mod 16),
      hex_digit (c div 16 mod 16), hex_digit (c mod 16)]"

definition is_high_surrogate :: "nat \<Rightarrow> bool" where
  "is_high_surrogate c = (55296 \<le> c \<and> c \<le> 56319)"

definition is_low_surrogate :: "nat \<Rightarrow> bool" where
  "is_low_surrogate c = (56320 \<le> c \<and> c \<le> 57343)"

text \<open>
  The body of a quoted JSON string (ECMA-262, QuoteJSONString): the short escapes, the
  \<^verbatim>\<open>\uXXXX\<close> form for the other control characters and for lone surrogates, every other
  code unit unchanged.
\<close>

fun quote_units :: "jsstring \<Rightarrow> jsstring" where
  "quote_units [] = []"
| "quote_units (c # cs) =
     (if c = 8 then [92, 98] @ quote_units cs
      else if c = 9 then [92, 116] @ quote_units cs
      else if c = 10 then [92, 110] @ quote_units cs
      else if c = 12 then [92, 102] @ quote_units cs
      else if c = 13 then [92, 114] @ quote_units cs
      else if c = 34 then [92, 34] @ quote_units cs
      else if c = 92 then [92, 92] @ quote_units cs
      else if c < 32 then unicode_escape c @ quote_units cs
      else if is_high_surrogate c then
        (case cs of
           [] \<Rightarrow> unicode_escape c
         | d # ds \<Rightarrow>
             if is_low_surrogate d then c # d # quote_units ds
             else unicode_escape c @ quote_units cs)
      else if is_low_surrogate c then unicode_escape c @ quote_units cs
      else c # quote_units cs)"

definition quote_json_string :: "jsstring \<Rightarrow> jsstring" where
  "quote_json_string s = [34] @ quote_units s @ [34]"

fun join_comma :: "jsstring list \<Rightarrow> jsstring" where
  "join_comma [] = []"
| "join_comma [x] = x"
| "join_comma (x # y # ys) = x @ [44] @ join_comma (y # ys)"

fun JSON_stringify :: "json \<Rightarrow> jsstring" where
  "JSON_stringify JNull = js ''null''"
| "JSON_stringify (JBool b) = (if b then js ''true'' else js ''false'')"
| "JSON_stringify (JNum n) =
     (if n < 0 then 45 # dec_digits (nat (- n)) else dec_digits (nat n))"
| "JSON_stringify (JStr s) = quote_json_string s"
| "JSON_stringify (JArr vs) = [91] @ join_comma (map JSON_stringify vs) @ [93]"
| "JSON_stringify (JObj kvs) =
     [123] @ join_comma (map (\<lambda>kv. quote_json_string (fst kv) @ [58] @ JSON_stringify (snd kv)) kvs)
       @ [125]"


section \<open>The meeting tab state manager (\<^verbatim>\<open>meeting-tab-state-manager.js\<close>)\<close>

subsection \<open>Data\<close>

text \<open>
  The state a content script reports for its tab; \<^verbatim>\<open>null\<close> is \<open>None\<close>. The fields are
  listed in the order in which the object literals of the source list them.
\<close>

record meeting_state =
  mic_enabled :: bool
  camera_enabled :: bool
  hand_raised :: bool
  in_meeting :: bool
  meeting_id :: "jsstring option"
  meeting_name :: "jsstring option"
  participant_count :: int

definition TAB_STATE_TIMEOUT :: int where
  "TAB_STATE_TIMEOUT = 60000"

definition CLEANUP_INTERVAL :: int where
  "CLEANUP_INTERVAL = 5000"

definition NULL_STATE :: meeting_state where
  "NULL_STATE =
     \<lparr>mic_enabled = False, camera_enabled = False, hand_raised = False, in_meeting = False,
      meeting_id = None, meeting_name = None, participant_count = 0\<rparr>"

definition state_json :: "meeting_state \<Rightarrow> json" where
  "state_json s =
     JObj [(js ''mic_enabled'', JBool (mic_enabled s)),
           (js ''camera_enabled'', JBool (camera_enabled s)),
           (js ''hand_raised'', JBool (hand_raised s)),
           (js ''in_meeting'', JBool (in_meeting s)),
           (js ''meeting_id'', case meeting_id s of None \<Rightarrow> JNull | Some i \<Rightarrow> JStr i),
           (js ''meeting_name'', case meeting_name s of None \<Rightarrow> JNull | Some n \<Rightarrow> JStr n),
           (js ''participant_count'', JNum (participant_count s))]"

record tab_entry =
  tabId :: nat
  state :: meeting_state
  last_updated :: int

text \<open>
  \<^verbatim>\<open>storageData.tabStates\<close> is a JavaScript object keyed by tab id. Tab ids are
  non-negative integers, so every key is an integer index and \<^verbatim>\<open>Object.keys\<close>
  enumerates the keys in ascending numeric order, whatever the order of insertion
  (ECMA-262, OrdinaryOwnPropertyKeys). The object is an association list read through
  \<open>map_of\<close>; \<open>object_keys\<close> is \<^verbatim>\<open>Object.keys\<close>.
\<close>

type_synonym tab_states = "(nat \<times> tab_entry) list"

definition object_keys :: "tab_states \<Rightarrow> nat list" where
  "object_keys ts = sort (remdups (map fst ts))"

record storage_data =
  tabStates :: tab_states
  activeMeetingTabId :: "nat option"

text \<open>
  The manager object: the two options of the constructor. \<^verbatim>\<open>options.timeout || TAB_STATE_TIMEOUT\<close>
  takes the default for a missing option and for \<open>0\<close>.
\<close>

record manager =
  timeout :: int
  cleanupInterval :: int

definition or_default :: "int option \<Rightarrow> int \<Rightarrow> int" where
  "or_default v d = (case v of None \<Rightarrow> d | Some x \<Rightarrow> if x = 0 then d else x)"

definition new_manager :: "int option \<Rightarrow> int option \<Rightarrow> manager" where
  "new_manager opt_timeout opt_cleanupInterval =
     \<lparr>timeout = or_default opt_timeout TAB_STATE_TIMEOUT,
      cleanupInterval = or_default opt_cleanupInterval CLEANUP_INTERVAL\<rparr>"

subsection \<open>Storage\<close>

text \<open>
  What \<^verbatim>\<open>chrome.storage.local\<close> holds under \<^verbatim>\<open>STORAGE_KEY\<close>: nothing, or the last
  object written. Reads and writes of the store are taken to succeed, and each
  operation of the manager runs to its end before the next one starts.
\<close>

type_synonym store = "storage_data option"

definition readStorage :: "store \<Rightarrow> storage_data" where
  "readStorage st =
     (case st of
        Some d \<Rightarrow> d
      | None \<Rightarrow> \<lparr>tabStates = [], activeMeetingTabId = None\<rparr>)"

definition writeStorage :: "storage_data \<Rightarrow> store" where
  "writeStorage d = Some d"

subsection \<open>Operations\<close>

text \<open>
  \<^verbatim>\<open>getCurrentState\<close>: the condition \<^verbatim>\<open>activeMeetingTabId && tabStates[activeMeetingTabId]\<close>
  is false for \<^verbatim>\<open>null\<close>, for the number \<open>0\<close> and for a missing entry.
\<close>

definition getCurrentState :: "store \<Rightarrow> meeting_state" where
  "getCurrentState st =
     (let storageData = readStorage st in
      case activeMeetingTabId storageData of
        None \<Rightarrow> NULL_STATE
      | Some a \<Rightarrow>
          if a = 0 then NULL_STATE
          else (case map_of (tabStates storageData) a of
                  None \<Rightarrow> NULL_STATE
                | Some e \<Rightarrow> state e))"

definition getActiveMeetingTabId :: "store \<Rightarrow> nat option" where
  "getActiveMeetingTabId st = activeMeetingTabId (readStorage st)"

text \<open>
  \<^verbatim>\<open>_findActiveMeetingTabIdFromStates\<close>: the loop over \<^verbatim>\<open>Object.keys(tabStates)\<close>
  returning at the first key whose entry is in a meeting. Every key of the loop is a
  key of the object, so the lookup finds its entry.
\<close>

fun find_in_meeting :: "tab_states \<Rightarrow> nat list \<Rightarrow> nat option" where
  "find_in_meeting ts [] = None"
| "find_in_meeting ts (k # ks) =
     (case map_of ts k of
        Some e \<Rightarrow> if in_meeting (state e) then Some k else find_in_meeting ts ks
      | None \<Rightarrow> find_in_meeting ts ks)"

definition findActiveMeetingTabIdFromStates :: "tab_states \<Rightarrow> nat option" where
  "findActiveMeetingTabIdFromStates ts = find_in_meeting ts (object_keys ts)"

text \<open>
  The loop of \<^verbatim>\<open>_cleanStaleStates\<close> over the keys the object had when the loop
  started, carrying the object and the flag \<^verbatim>\<open>deleted\<close>.
\<close>

fun clean_loop :: "int \<Rightarrow> int \<Rightarrow> nat list \<Rightarrow> tab_states \<times> bool \<Rightarrow> tab_states \<times> bool" where
  "clean_loop tmo now [] acc = acc"
| "clean_loop tmo now (k # ks) (ts, deleted) =
     (case map_of ts k of
        Some e \<Rightarrow>
          if now - last_updated e > tmo
          then clean_loop tmo now ks (AList.delete k ts, True)
          else clean_loop tmo now ks (ts, deleted)
      | None \<Rightarrow> clean_loop tmo now ks (ts, deleted))"

text \<open>
  An event \<^verbatim>\<open>state-changed\<close> is recorded by its payload; each operation returns the
  store it leaves and the events it emitted, in order.
\<close>

definition emit_if_changed :: "meeting_state \<Rightarrow> meeting_state \<Rightarrow> meeting_state list" where
  "emit_if_changed previousState newState =
     (if JSON_stringify (state_json previousState) \<noteq> JSON_stringify (state_json newState)
      then [newState] else [])"

definition cleanStaleStates :: "manager \<Rightarrow> int \<Rightarrow> store \<Rightarrow> store \<times> meeting_state list" where
  "cleanStaleStates m now st =
     (let storageData = readStorage st;
          (ts, deleted) =
             clean_loop (timeout m) now (object_keys (tabStates storageData))
               (tabStates storageData, False)
      in if deleted then
           (let previousState = getCurrentState st;
                st' = writeStorage
                  \<lparr>tabStates = ts, activeMeetingTabId = findActiveMeetingTabIdFromStates ts\<rparr>;
                newState = getCurrentState st'
            in (st', emit_if_changed previousState newState))
         else (st, []))"

definition init :: "manager \<Rightarrow> int \<Rightarrow> store \<Rightarrow> store \<times> meeting_state list" where
  "init m now st = cleanStaleStates m now st"

text \<open>
  \<^verbatim>\<open>updateTabState\<close> reads the clock twice: \<open>now\<close> inside the sweep it starts with,
  \<open>now'\<close> for the \<^verbatim>\<open>last_updated\<close> of the entry it stores.
\<close>

definition updateTabState ::
  "manager \<Rightarrow> int \<Rightarrow> int \<Rightarrow> nat \<Rightarrow> meeting_state \<Rightarrow> store \<Rightarrow> store \<times> meeting_state list" where
  "updateTabState m now now' tab s st =
     (let (st1, swept) = cleanStaleStates m now st;
          previousState = getCurrentState st1;
          storageData = readStorage st1;
          ts = AList.update tab \<lparr>tabId = tab, state = s, last_updated = now'\<rparr>
                 (tabStates storageData);
          st2 = writeStorage
                  \<lparr>tabStates = ts, activeMeetingTabId = findActiveMeetingTabIdFromStates ts\<rparr>;
          newState = getCurrentState st2
      in (st2, swept @ emit_if_changed previousState newState))"

text \<open>The public operations as data, and a run of them from a given store.\<close>

datatype manager_op =
    UpdateTabState int int nat meeting_state
  | CleanStaleStates int
  | Init int

fun apply_op :: "manager \<Rightarrow> manager_op \<Rightarrow> store \<Rightarrow> store \<times> meeting_state list" where
  "apply_op m (UpdateTabState now now' tab s) st = updateTabState m now now' tab s st"
| "apply_op m (CleanStaleStates now) st = cleanStaleStates m now st"
| "apply_op m (Init now) st = init m now st"

fun run_ops :: "manager \<Rightarrow> manager_op list \<Rightarrow> store \<Rightarrow> store" where
  "run_ops m [] st = st"
| "run_ops m (x # xs) st = run_ops m xs (fst (apply_op m x st))"

subsection \<open>Notions used in the statements\<close>

text \<open>An entry of the object is evicted by a sweep at \<open>now\<close>: the test of the loop.\<close>

definition stale :: "manager \<Rightarrow> int \<Rightarrow> tab_states \<Rightarrow> nat \<Rightarrow> bool" where
  "stale m now ts k =
     (case map_of ts k of None \<Rightarrow> False | Some e \<Rightarrow> now - last_updated e > timeout m)"

text \<open>The stored active id is the one the finder computes from the stored entries.\<close>

definition consistent :: "store \<Rightarrow> bool" where
  "consistent st \<longleftrightarrow>
     activeMeetingTabId (readStorage st) =
       findActiveMeetingTabIdFromStates (tabStates (readStorage st))"

text \<open>
  Liveness as the specification words it: a report is live only if
  \<open>now - last_seen_at < staleness_timeout\<close>.
\<close>

definition spec_live :: "int \<Rightarrow> int \<Rightarrow> tab_entry \<Rightarrow> bool" where
  "spec_live staleness_timeout now e \<longleftrightarrow> now - last_updated e < staleness_timeout"

text \<open>
  "No instance's report is live", in the same wording: every stored report fails the
  liveness test.
\<close>

definition spec_none_live :: "int \<Rightarrow> int \<Rightarrow> tab_states \<Rightarrow> bool" where
  "spec_none_live staleness_timeout now ts =
     list_all (\<lambda>p. \<not> spec_live staleness_timeout now (snd p)) ts"

text \<open>
  The authoritative instance as the specification words it: given the live reports in
  their order of arrival, the first one that indicates an active session.
\<close>

definition spec_authoritative :: "(nat \<times> tab_entry) list \<Rightarrow> nat option" where
  "spec_authoritative arrivals =
     (case filter (\<lambda>p. in_meeting (state (snd p))) arrivals of
        [] \<Rightarrow> None
      | p # _ \<Rightarrow> Some (fst p))"

text \<open>Two reports of tabs that are in a meeting, for the concrete runs below.\<close>

definition report_a :: meeting_state where
  "report_a =
     \<lparr>mic_enabled = True, camera_enabled = False, hand_raised = False, in_meeting = True,
      meeting_id = Some (js ''abc-defg-hij''), meeting_name = Some (js ''Standup''),
      participant_count = 4\<rparr>"

definition report_b :: meeting_state where
  "report_b =
     \<lparr>mic_enabled = False, camera_enabled = True, hand_raised = False, in_meeting = True,
      meeting_id = Some (js ''klm-nopq-rst''), meeting_name = Some (js ''Review''),
      participant_count = 2\<rparr>"

text \<open>A store holding one report, of tab 5 at time 0, with tab 5 active.\<close>

definition one_tab_store :: store where
  "one_tab_store =
     Some \<lparr>tabStates = [(5, \<lparr>tabId = 5, state = report_a, last_updated = 0\<rparr>)],
           activeMeetingTabId = Some 5\<rparr>"

text \<open>
  The stored active id is null or names a stored entry whose report is in a meeting.
\<close>

definition active_ok :: "store \<Rightarrow> bool" where
  "active_ok st =
     (case activeMeetingTabId (readStorage st) of
        None \<Rightarrow> True
      | Some a \<Rightarrow>
          (case map_of (tabStates (readStorage st)) a of
             None \<Rightarrow> False
           | Some e \<Rightarrow> in_meeting (state e)))"

text \<open>Tab 7 reports first, tab 3 second; both are in a meeting.\<close>

definition two_tab_run :: "manager_op list" where
  "two_tab_run = [UpdateTabState 1000 1000 7 report_a, UpdateTabState 2000 2000 3 report_b]"

section \<open>The authentication manager (\<^verbatim>\<open>AuthManager\<close>)\<close>

subsection \<open>Errors, bytes and \<^verbatim>\<open>btoa\<close>\<close>

text \<open>
  A thrown value: an \<^verbatim>\<open>Error\<close> with its message, or the \<^verbatim>\<open>InvalidCharacterError\<close> that
  \<^verbatim>\<open>btoa\<close> throws for a code unit above \<open>0xFF\<close>.
\<close>

datatype js_error = Error string | InvalidCharacterError

type_synonym byte = "8 word"

definition b64_alphabet :: string where
  "b64_alphabet = ''ABCDEFGHIJKLMNOPQRSTUVWXYZabcdefghijklmnopqrstuvwxyz0123456789+/''"

definition b64_char :: "nat \<Rightarrow> char" where
  "b64_char n = b64_alphabet ! n"

fun b64_groups :: "nat list \<Rightarrow> string" where
  "b64_groups [] = []"
| "b64_groups [a] = [b64_char (a div 4), b64_char (a mod 4 * 16), CHR ''='', CHR ''='']"
| "b64_groups [a, b] =
     [b64_char (a div 4), b64_char (a mod 4 * 16 + b div 16), b64_char (b mod 16 * 4),
      CHR ''='']"
| "b64_groups (a # b # c # rest) =
     [b64_char (a div 4), b64_char (a mod 4 * 16 + b div 16),
      b64_char (b mod 16 * 4 + c div 64), b64_char (c mod 64)] @ b64_groups rest"

definition btoa :: "jsstring \<Rightarrow> js_error + string" where
  "btoa s = (if list_all (\<lambda>c. c \<le> 255) s then Inr (b64_groups s) else Inl InvalidCharacterError)"

text \<open>
  \<^verbatim>\<open>_base64UrlEncode\<close> takes a string or an \<^verbatim>\<open>ArrayBuffer\<close>; the three \<^verbatim>\<open>replace\<close>
  calls turn \<open>+\<close> into \<open>-\<close>, \<open>/\<close> into \<open>_\<close> and drop the \<open>=\<close> at the end.
\<close>

datatype encode_input = StringData jsstring | ArrayBufferData "byte list"

definition strip_padding :: "string \<Rightarrow> string" where
  "strip_padding s = rev (dropWhile (\<lambda>c. c = CHR ''='') (rev s))"

definition base64UrlEncode :: "encode_input \<Rightarrow> js_error + string" where
  "base64UrlEncode data =
     (case (case data of
              ArrayBufferData bytes \<Rightarrow> btoa (map unat bytes)
            | StringData s \<Rightarrow> btoa s) of
        Inl e \<Rightarrow> Inl e
      | Inr base64 \<Rightarrow>
          Inr (strip_padding
                (map (\<lambda>c. if c = CHR ''/'' then CHR ''_'' else c)
                  (map (\<lambda>c. if c = CHR ''+'' then CHR ''-'' else c) base64))))"

subsection \<open>The manager and \<^verbatim>\<open>signMessage\<close>\<close>

text \<open>
  A \<^verbatim>\<open>CryptoKey\<close> is an opaque handle. \<^verbatim>\<open>crypto.subtle.sign\<close> is a parameter \<open>sign\<close> of
  every function that signs: from the key and the bytes to sign to the bytes of the
  signature.
\<close>

datatype crypto_key = CryptoKey nat

type_synonym signer = "crypto_key \<Rightarrow> byte list \<Rightarrow> byte list"

record auth_manager =
  privateKey :: "crypto_key option"
  publicKeyJWK :: "json option"
  instanceId :: "jsstring option"

definition new_auth_manager :: auth_manager where
  "new_auth_manager = \<lparr>privateKey = None, publicKeyJWK = None, instanceId = None\<rparr>"

definition or_null :: "json option \<Rightarrow> json" where
  "or_null v = (case v of None \<Rightarrow> JNull | Some x \<Rightarrow> x)"

definition getInstanceId :: "auth_manager \<Rightarrow> json" where
  "getInstanceId a = or_null (map_option JStr (instanceId a))"

definition getPublicKey :: "auth_manager \<Rightarrow> json" where
  "getPublicKey a = or_null (publicKeyJWK a)"

text \<open>
  The object literal \<^verbatim>\<open>{...payload, iat: \<dots>, exp: \<dots>, instance_id: \<dots>}\<close>: the
  properties of the payload, then the three claims, each replacing a property of the
  same name in place or else added at the end. \<^verbatim>\<open>Date.now()\<close> is called once for
  \<^verbatim>\<open>iat\<close> and once more for \<^verbatim>\<open>exp\<close>: \<open>now\<close> and \<open>now'\<close> are the two readings, in
  milliseconds.
\<close>

definition fullPayload ::
  "int \<Rightarrow> int \<Rightarrow> auth_manager \<Rightarrow> (jsstring \<times> json) list \<Rightarrow> (jsstring \<times> json) list" where
  "fullPayload now now' a payload =
     AList.update (js ''instance_id'') (getInstanceId a)
       (AList.update (js ''exp'') (JNum (now' div 1000 + 300))
         (AList.update (js ''iat'') (JNum (now div 1000)) payload))"

definition jwt_header :: json where
  "jwt_header = JObj [(js ''alg'', JStr (js ''ES256'')), (js ''typ'', JStr (js ''JWT''))]"

text \<open>
  \<^verbatim>\<open>TextEncoder.encode\<close> of the signature input, which consists of ASCII characters
  only: one byte for each character.
\<close>

definition encode_ascii :: "string \<Rightarrow> byte list" where
  "encode_ascii s = map of_char s"

definition signMessage ::
  "signer \<Rightarrow> int \<Rightarrow> int \<Rightarrow> auth_manager \<Rightarrow> (jsstring \<times> json) list \<Rightarrow> js_error + string" where
  "signMessage sign now now' a payload =
     (case privateKey a of
        None \<Rightarrow> Inl (Error ''No private key available'')
      | Some key \<Rightarrow>
          (case base64UrlEncode (StringData (JSON_stringify jwt_header)) of
             Inl e \<Rightarrow> Inl e
           | Inr encodedHeader \<Rightarrow>
               (case base64UrlEncode
                       (StringData (JSON_stringify (JObj (fullPayload now now' a payload)))) of
                  Inl e \<Rightarrow> Inl e
                | Inr encodedPayload \<Rightarrow>
                    (let signatureInput = encodedHeader @ ''.'' @ encodedPayload;
                         signature = sign key (encode_ascii signatureInput)
                     in case base64UrlEncode (ArrayBufferData signature) of
                          Inl e \<Rightarrow> Inl e
                        | Inr encodedSignature \<Rightarrow>
                            Inr (signatureInput @ ''.'' @ encodedSignature)))))"

section \<open>The client (\<^verbatim>\<open>StreamControllerClient\<close>, \<^verbatim>\<open>PairingManager\<close>, \<^verbatim>\<open>WebSocketManager\<close>)\<close>

subsection \<open>State\<close>

datatype pairing_phase = Unauthorized | Pending | Authorized

text \<open>
  A message from the server after \<^verbatim>\<open>JSON.parse\<close>, by the properties the client reads;
  a missing property (\<^verbatim>\<open>undefined\<close>) is \<open>None\<close>.
\<close>

record server_message =
  msg_type :: string
  msg_action :: "json option"
  msg_data :: "json option"
  msg_error_code :: "string option"
  msg_message :: "string option"

text \<open>The events the client emits to the handlers registered with \<^verbatim>\<open>on\<close>.\<close>

datatype client_event =
    EvConnected
  | EvCommand "json option" "json option"
  | EvPairingRequired
  | EvDisconnected string
  | EvError js_error
  | EvSocketError

text \<open>
  The client with its three managers and the part of the environment it acts on:
  \<open>ws_open\<close> says that the WebSocket exists with \<^verbatim>\<open>readyState\<close> \<^verbatim>\<open>OPEN\<close>, \<open>sent\<close> lists the
  frames handed to \<^verbatim>\<open>WebSocket.send\<close>, \<open>intervals\<close> lists the ids of the interval timers
  that are set, \<open>timers_created\<close> counts the timers handed out so far (\<^verbatim>\<open>setInterval\<close>
  returns a fresh integer greater than zero), and \<open>emitted\<close> lists the events emitted,
  oldest first.
\<close>

record client =
  extensionId :: jsstring
  auth :: auth_manager
  pairing_state :: pairing_phase
  ws_open :: bool
  shouldReconnect :: bool
  sent :: "jsstring list"
  heartbeatTimer :: "nat option"
  intervals :: "nat list"
  timers_created :: nat
  emitted :: "client_event list"

definition new_client :: "jsstring \<Rightarrow> client" where
  "new_client ext =
     \<lparr>extensionId = ext, auth = new_auth_manager, pairing_state = Unauthorized,
      ws_open = False, shouldReconnect = True, sent = [], heartbeatTimer = None,
      intervals = [], timers_created = 0, emitted = []\<rparr>"

definition emit :: "client_event \<Rightarrow> client \<Rightarrow> client" where
  "emit ev c = c\<lparr>emitted := emitted c @ [ev]\<rparr>"

subsection \<open>\<^verbatim>\<open>WebSocketManager\<close> and \<^verbatim>\<open>PairingManager\<close>\<close>

text \<open>
  A method that can throw returns the client it leaves and the error thrown, if any.
\<close>

definition ws_send :: "json \<Rightarrow> client \<Rightarrow> client \<times> js_error option" where
  "ws_send message c =
     (if \<not> ws_open c then (c, Some (Error ''WebSocket not connected''))
      else (c\<lparr>sent := sent c @ [JSON_stringify message]\<rparr>, None))"

definition isConnected :: "client \<Rightarrow> bool" where
  "isConnected c = ws_open c"

definition ws_disconnect :: "client \<Rightarrow> client" where
  "ws_disconnect c = c\<lparr>shouldReconnect := False, ws_open := False\<rparr>"

definition isAuthorized :: "client \<Rightarrow> bool" where
  "isAuthorized c = (pairing_state c = Authorized)"

definition isPending :: "client \<Rightarrow> bool" where
  "isPending c = (pairing_state c = Pending)"

definition markUnauthorized :: "client \<Rightarrow> client" where
  "markUnauthorized c = c\<lparr>pairing_state := Unauthorized\<rparr>"

text \<open>
  \<^verbatim>\<open>PairingManager.authenticate\<close>; \<open>metadata\<close> is what \<^verbatim>\<open>MetadataCollector.getMetadata\<close>
  returned.
\<close>

definition authenticate :: "json \<Rightarrow> client \<Rightarrow> client \<times> js_error option" where
  "authenticate metadata c =
     (case ws_send
             (JObj [(js ''type'', JStr (js ''handshake'')),
                    (js ''extension_id'', JStr (extensionId c)),
                    (js ''instance_id'', getInstanceId (auth c)),
                    (js ''public_key'', getPublicKey (auth c)),
                    (js ''metadata'', metadata)]) c of
        (c', Some e) \<Rightarrow> (c', Some e)
      | (c', None) \<Rightarrow> (c'\<lparr>pairing_state := Pending\<rparr>, None))"

subsection \<open>The heartbeat\<close>

text \<open>
  \<^verbatim>\<open>if (this.heartbeatTimer)\<close> holds for a timer id other than \<open>0\<close>.
\<close>

definition timer_set :: "client \<Rightarrow> bool" where
  "timer_set c = (case heartbeatTimer c of None \<Rightarrow> False | Some t \<Rightarrow> t \<noteq> 0)"

definition startHeartbeat :: "client \<Rightarrow> client" where
  "startHeartbeat c =
     (if timer_set c then c
      else c\<lparr>heartbeatTimer := Some (Suc (timers_created c)),
             intervals := intervals c @ [Suc (timers_created c)],
             timers_created := Suc (timers_created c)\<rparr>)"

definition stopHeartbeat :: "client \<Rightarrow> client" where
  "stopHeartbeat c =
     (case heartbeatTimer c of
        None \<Rightarrow> c
      | Some t \<Rightarrow>
          if t \<noteq> 0
          then c\<lparr>intervals := removeAll t (intervals c), heartbeatTimer := None\<rparr>
          else c)"

record message_payload =
  payload_type :: jsstring
  payload_data :: json

definition payload_object :: "message_payload \<Rightarrow> (jsstring \<times> json) list" where
  "payload_object p = [(js ''type'', JStr (payload_type p)), (js ''data'', payload_data p)]"

definition createSignedMessage ::
  "signer \<Rightarrow> int \<Rightarrow> int \<Rightarrow> message_payload \<Rightarrow> client \<Rightarrow> js_error + json" where
  "createSignedMessage sign now now' payload c =
     (case signMessage sign now now' (auth c) (payload_object payload) of
        Inl e \<Rightarrow> Inl e
      | Inr token \<Rightarrow>
          Inr (JObj [(js ''type'', JStr (payload_type payload)),
                     (js ''extension_id'', JStr (extensionId c)),
                     (js ''instance_id'', getInstanceId (auth c)),
                     (js ''data'', payload_data payload),
                     (js ''token'', JStr (js token))]))"

text \<open>
  The callback of the heartbeat timer: it returns at once unless the socket is open and
  the client authorized, and it catches what signing and sending throw.
\<close>

definition heartbeat_callback :: "signer \<Rightarrow> int \<Rightarrow> int \<Rightarrow> client \<Rightarrow> client" where
  "heartbeat_callback sign now now' c =
     (if \<not> isConnected c \<or> \<not> isAuthorized c then c
      else (case createSignedMessage sign now now'
                   \<lparr>payload_type = js ''heartbeat'', payload_data = JObj []\<rparr> c of
              Inl e \<Rightarrow> c
            | Inr message \<Rightarrow> fst (ws_send message c)))"

subsection \<open>The public methods and the event handlers\<close>

definition sendState :: "signer \<Rightarrow> int \<Rightarrow> int \<Rightarrow> json \<Rightarrow> client \<Rightarrow> client \<times> js_error option" where
  "sendState sign now now' st c =
     (if \<not> isAuthorized c then (c, Some (Error ''Not authorized. Pairing required.''))
      else (case createSignedMessage sign now now'
                   \<lparr>payload_type = js ''state'', payload_data = st\<rparr> c of
              Inl e \<Rightarrow> (c, Some e)
            | Inr message \<Rightarrow> ws_send message c))"

definition disconnect :: "client \<Rightarrow> client" where
  "disconnect c = ws_disconnect (stopHeartbeat c)"

definition onPairingAuthorized :: "client \<Rightarrow> client" where
  "onPairingAuthorized c = emit EvConnected (startHeartbeat c)"

definition onWebSocketConnected :: "json \<Rightarrow> client \<Rightarrow> client" where
  "onWebSocketConnected metadata c =
     (case authenticate metadata c of
        (c', Some e) \<Rightarrow> emit (EvError e) c'
      | (c', None) \<Rightarrow> c')"

definition onWebSocketDisconnected :: "string \<Rightarrow> client \<Rightarrow> client" where
  "onWebSocketDisconnected reason c =
     emit (EvDisconnected reason) (markUnauthorized (stopHeartbeat c))"

text \<open>
  \<^verbatim>\<open>PairingManager.handleMessage\<close>, with the handlers the client registered for the four
  pairing events in \<^verbatim>\<open>_setupEventHandlers\<close>.
\<close>

definition pairing_handleMessage :: "server_message \<Rightarrow> client \<Rightarrow> client" where
  "pairing_handleMessage message c =
     (if msg_type message = ''handshake_success''
        then onPairingAuthorized (c\<lparr>pairing_state := Authorized\<rparr>)
      else if msg_type message = ''handshake_pending''
        then emit EvPairingRequired (c\<lparr>pairing_state := Pending\<rparr>)
      else if msg_type message = ''handshake_denied''
        then emit (EvError (Error ''Pairing denied by user'')) (c\<lparr>pairing_state := Unauthorized\<rparr>)
      else if msg_type message = ''handshake_timeout''
        then emit (EvError (Error ''Pairing request timed out''))
               (c\<lparr>pairing_state := Unauthorized\<rparr>)
      else c)"

definition template_string :: "string option \<Rightarrow> string" where
  "template_string v = (case v of None \<Rightarrow> ''undefined'' | Some s \<Rightarrow> s)"

definition handleServerError ::
  "json \<Rightarrow> server_message \<Rightarrow> client \<Rightarrow> client \<times> js_error option" where
  "handleServerError metadata message c =
     (if msg_error_code message = Some ''not_authorized'' \<or>
         msg_error_code message = Some ''invalid_signature''
      then authenticate metadata (stopHeartbeat (markUnauthorized c))
      else (emit (EvError (Error (''Server error: '' @ template_string (msg_message message)))) c,
            None))"

text \<open>
  \<^verbatim>\<open>_handleServerMessage\<close>: the \<^verbatim>\<open>switch\<close> on \<^verbatim>\<open>message.type\<close>, the cases in the order
  of the source.
\<close>

definition handleServerMessage ::
  "json \<Rightarrow> server_message \<Rightarrow> client \<Rightarrow> client \<times> js_error option" where
  "handleServerMessage metadata message c =
     (if msg_type message = ''command''
        then (emit (EvCommand (msg_action message) (msg_data message)) c, None)
      else if msg_type message = ''error''
        then handleServerError metadata message c
      else if msg_type message = ''heartbeat_ack''
        then (c, None)
      else if msg_type message \<in> set [''handshake_success'', ''handshake_pending'',
                                        ''handshake_denied'', ''handshake_timeout'']
        then (pairing_handleMessage message c, None)
      else (c, None))"

text \<open>
  What can happen to a client: \<^verbatim>\<open>auth.initialize()\<close> inside \<^verbatim>\<open>connect\<close> has loaded
  or generated the identity, a call of \<^verbatim>\<open>sendState\<close> or \<^verbatim>\<open>disconnect\<close>, an event of
  the socket (its opening, its closing, a message, an error), the firing of an interval
  timer. A timer that has been cleared does not fire.
\<close>

datatype client_input =
    AuthInitialized jsstring crypto_key json
  | SendState int int json
  | Disconnect
  | SocketOpened json
  | SocketClosed string
  | SocketMessage json server_message
  | SocketError
  | TimerFired nat int int

fun client_step :: "signer \<Rightarrow> client_input \<Rightarrow> client \<Rightarrow> client" where
  "client_step sign (AuthInitialized iid key jwk) c =
     c\<lparr>auth := \<lparr>privateKey = Some key, publicKeyJWK = Some jwk, instanceId = Some iid\<rparr>\<rparr>"
| "client_step sign (SendState now now' st) c = fst (sendState sign now now' st c)"
| "client_step sign Disconnect c = disconnect c"
| "client_step sign (SocketOpened metadata) c = onWebSocketConnected metadata (c\<lparr>ws_open := True\<rparr>)"
| "client_step sign (SocketClosed reason) c = onWebSocketDisconnected reason (c\<lparr>ws_open := False\<rparr>)"
| "client_step sign (SocketMessage metadata message) c =
     fst (handleServerMessage metadata message c)"
| "client_step sign SocketError c = emit EvSocketError c"
| "client_step sign (TimerFired t now now') c =
     (if t \<in> set (intervals c) then heartbeat_callback sign now now' c else c)"

fun client_run :: "signer \<Rightarrow> client_input list \<Rightarrow> client \<Rightarrow> client" where
  "client_run sign [] c = c"
| "client_run sign (x # xs) c = client_run sign xs (client_step sign x c)"

text \<open>
  The interval timers that are set are exactly the one the client holds in
  \<^verbatim>\<open>heartbeatTimer\<close>, if it holds one.
\<close>

definition one_timer :: "client \<Rightarrow> bool" where
  "one_timer c =
     (case heartbeatTimer c of
        None \<Rightarrow> intervals c = []
      | Some t \<Rightarrow> t \<noteq> 0 \<and> intervals c = [t])"

subsection \<open>Sample data for the concrete runs\<close>

definition sample_auth :: auth_manager where
  "sample_auth =
     \<lparr>privateKey = Some (CryptoKey 1), publicKeyJWK = Some (JObj []),
      instanceId = Some (js ''inst-1'')\<rparr>"

definition heartbeat_payload :: message_payload where
  "heartbeat_payload = \<lparr>payload_type = js ''heartbeat'', payload_data = JObj []\<rparr>"

definition command_message :: server_message where
  "command_message =
     \<lparr>msg_type = ''command'', msg_action = Some (JStr (js ''toggle_mic'')), msg_data = None,
      msg_error_code = None, msg_message = None\<rparr>"

definition success_message :: server_message where
  "success_message =
     \<lparr>msg_type = ''handshake_success'', msg_action = None, msg_data = None,
      msg_error_code = None, msg_message = None\<rparr>"

text \<open>
  A session: the identity is loaded, the socket opens, the server approves twice.
\<close>

definition sample_session :: "client_input list" where
  "sample_session =
     [AuthInitialized (js ''inst-1'') (CryptoKey 1) (JObj []), SocketOpened JNull,
      SocketMessage JNull success_message, SocketMessage JNull success_message]"

text \<open>A client that is connected, authorized and holds the sample identity.\<close>

definition ready_client :: client where
  "ready_client =
     (new_client (js ''ext''))\<lparr>auth := sample_auth, pairing_state := Authorized, ws_open := True\<rparr>"

section \<open>Properties of the tab state manager\<close>

subsection \<open>The key enumeration, the finder and the sweep loop\<close>

lemma set_object_keys: "set (object_keys ts) = fst ` set ts"
  by (simp add: object_keys_def)

lemma sorted_object_keys: "sorted (object_keys ts)"
  by (simp add: object_keys_def)

lemma distinct_object_keys: "distinct (object_keys ts)"
  by (simp add: object_keys_def)

lemma lookup_in_object_keys: "map_of ts k = Some e \<Longrightarrow> k \<in> set (object_keys ts)"
proof -
  assume "map_of ts k = Some e"
  then have "(k, e) \<in> set ts" by (rule map_of_SomeD)
  then have "fst (k, e) \<in> fst ` set ts" by (rule imageI)
  then show ?thesis by (simp add: set_object_keys)
qed

lemma find_in_meeting_None:
  "find_in_meeting ts ks = None \<longleftrightarrow>
     (\<forall>k \<in> set ks. \<forall>e. map_of ts k = Some e \<longrightarrow> \<not> in_meeting (state e))"
  by (induction ks) (auto split: option.splits)

lemma find_in_meeting_Some:
  "find_in_meeting ts ks = Some k \<Longrightarrow>
     k \<in> set ks \<and> (\<exists>e. map_of ts k = Some e \<and> in_meeting (state e))"
  by (induction ks) (auto split: option.splits if_splits)

lemma find_in_meeting_least:
  "sorted ks \<Longrightarrow> find_in_meeting ts ks = Some k \<Longrightarrow> k' \<in> set ks \<Longrightarrow>
     map_of ts k' = Some e' \<Longrightarrow> in_meeting (state e') \<Longrightarrow> k \<le> k'"
proof (induction ks)
  case Nil
  then show ?case by simp
next
  case (Cons a ks)
  show ?case
  proof (cases "\<exists>e. map_of ts a = Some e \<and> in_meeting (state e)")
    case True
    then have "k = a" using Cons.prems(2) by auto
    then show ?thesis using Cons.prems(1,3) by auto
  next
    case False
    then have rest: "find_in_meeting ts ks = Some k"
      using Cons.prems(2) by (auto split: option.splits if_splits)
    have "k' \<noteq> a" using False Cons.prems(4,5) by auto
    then have "k' \<in> set ks" using Cons.prems(3) by simp
    then show ?thesis using Cons.IH rest Cons.prems(1,4,5) by simp
  qed
qed

lemma clean_loop_fst:
  "fst (clean_loop tmo now ks (ts, d)) =
     filter (\<lambda>p. \<not> (fst p \<in> set ks \<and>
        (\<exists>e. map_of ts (fst p) = Some e \<and> now - last_updated e > tmo))) ts"
proof (induction ks arbitrary: ts d)
  case Nil
  then show ?case by simp
next
  case (Cons k ks)
  show ?case
  proof (cases "map_of ts k")
    case None
    then have "\<And>p. p \<in> set ts \<Longrightarrow> fst p \<noteq> k"
      by (metis map_of_eq_None_iff image_eqI)
    then show ?thesis using None Cons.IH [of ts d]
      by (auto intro!: filter_cong)
  next
    case (Some e)
    show ?thesis
    proof (cases "now - last_updated e > tmo")
      case True
      have "fst (clean_loop tmo now (k # ks) (ts, d)) =
            fst (clean_loop tmo now ks (AList.delete k ts, True))"
        using Some True by simp
      also have "\<dots> = filter (\<lambda>p. \<not> (fst p \<in> set ks \<and>
          (\<exists>e. map_of (AList.delete k ts) (fst p) = Some e \<and> now - last_updated e > tmo)))
            (AList.delete k ts)"
        by (rule Cons.IH)
      also have "\<dots> = filter (\<lambda>p. \<not> (fst p \<in> set (k # ks) \<and>
          (\<exists>e. map_of ts (fst p) = Some e \<and> now - last_updated e > tmo))) ts"
      proof -
        have del: "AList.delete k ts = filter (\<lambda>p. fst p \<noteq> k) ts"
          by (simp add: AList.delete_eq case_prod_beta' eq_commute)
        have same: "map_of (AList.delete k ts) a = map_of ts a" if "a \<noteq> k" for a
          using that by (simp add: AList.delete_conv)
        have "filter (\<lambda>p. \<not> (fst p \<in> set ks \<and>
            (\<exists>e. map_of (AList.delete k ts) (fst p) = Some e \<and> now - last_updated e > tmo)))
              (filter (\<lambda>p. fst p \<noteq> k) ts) =
          filter (\<lambda>p. \<not> (fst p \<in> set (k # ks) \<and>
            (\<exists>e. map_of ts (fst p) = Some e \<and> now - last_updated e > tmo))) ts"
          unfolding filter_filter
          by (rule filter_cong [OF refl]) (use Some True in \<open>auto simp: AList.delete_conv\<close>)
        then show ?thesis by (simp only: del [symmetric])
      qed
      finally show ?thesis .
    next
      case False
      then show ?thesis using Some Cons.IH [of ts d]
        by (auto intro!: filter_cong)
    qed
  qed
qed

lemma clean_loop_snd:
  "snd (clean_loop tmo now ks (ts, d)) \<longleftrightarrow>
     d \<or> (\<exists>k \<in> set ks. \<exists>e. map_of ts k = Some e \<and> now - last_updated e > tmo)"
  by (induction ks arbitrary: ts d) (auto simp: AList.delete_conv split: option.splits)


lemma map_of_filter_key:
  "map_of (filter (\<lambda>p. Q (fst p)) ts) k = (if Q k then map_of ts k else None)"
  by (induction ts) auto

lemma stale_iff:
  "stale m now ts k \<longleftrightarrow> (\<exists>e. map_of ts k = Some e \<and> now - last_updated e > timeout m)"
  by (simp add: stale_def split: option.splits)

lemma clean_loop_all_keys:
  "fst (clean_loop (timeout m) now (object_keys ts) (ts, d)) =
     filter (\<lambda>p. \<not> stale m now ts (fst p)) ts"
  unfolding clean_loop_fst stale_iff
  by (rule filter_cong [OF refl]) (auto simp: set_object_keys)

lemma clean_loop_deleted:
  "snd (clean_loop (timeout m) now (object_keys ts) (ts, False)) \<longleftrightarrow> (\<exists>k. stale m now ts k)"
proof -
  have "(\<exists>k \<in> set (object_keys ts). stale m now ts k) \<longleftrightarrow> (\<exists>k. stale m now ts k)"
    unfolding stale_iff using lookup_in_object_keys by blast
  then show ?thesis
    unfolding clean_loop_snd by (simp add: stale_iff)
qed

lemma cleanStaleStates_unchanged:
  "\<not> (\<exists>k. stale m now (tabStates (readStorage st)) k) \<Longrightarrow> cleanStaleStates m now st = (st, [])"
  using clean_loop_deleted [of m now "tabStates (readStorage st)"]
  by (simp add: cleanStaleStates_def Let_def case_prod_beta)

lemma cleanStaleStates_evicting:
  assumes "\<exists>k. stale m now (tabStates (readStorage st)) k"
  defines "ts' \<equiv> filter (\<lambda>p. \<not> stale m now (tabStates (readStorage st)) (fst p)) (tabStates (readStorage st))"
  defines "st' \<equiv> Some \<lparr>tabStates = ts', activeMeetingTabId = findActiveMeetingTabIdFromStates ts'\<rparr>"
  shows "cleanStaleStates m now st = (st', emit_if_changed (getCurrentState st) (getCurrentState st'))"
  using assms(1) clean_loop_deleted [of m now "tabStates (readStorage st)"]
    clean_loop_all_keys [of m now "tabStates (readStorage st)" False]
  by (simp add: cleanStaleStates_def Let_def case_prod_beta writeStorage_def ts'_def st'_def)

lemma cleanStaleStates_tabStates:
  "tabStates (readStorage (fst (cleanStaleStates m now st))) =
     filter (\<lambda>p. \<not> stale m now (tabStates (readStorage st)) (fst p)) (tabStates (readStorage st))"
proof (cases "\<exists>k. stale m now (tabStates (readStorage st)) k")
  case True
  then show ?thesis by (simp add: cleanStaleStates_evicting readStorage_def)
next
  case False
  then have "filter (\<lambda>p. \<not> stale m now (tabStates (readStorage st)) (fst p)) (tabStates (readStorage st))
      = tabStates (readStorage st)"
    by simp
  then show ?thesis using False by (simp add: cleanStaleStates_unchanged)
qed

lemma cleanStaleStates_lookup:
  "map_of (tabStates (readStorage (fst (cleanStaleStates m now st)))) k =
     (case map_of (tabStates (readStorage st)) k of
        None \<Rightarrow> None
      | Some e \<Rightarrow> if now - last_updated e > timeout m then None else Some e)"
proof -
  have "map_of (tabStates (readStorage (fst (cleanStaleStates m now st)))) k =
      (if \<not> stale m now (tabStates (readStorage st)) k
       then map_of (tabStates (readStorage st)) k else None)"
    unfolding cleanStaleStates_tabStates
    by (rule map_of_filter_key [where Q = "\<lambda>k. \<not> stale m now (tabStates (readStorage st)) k"])
  then show ?thesis
    by (auto simp: stale_iff split: option.splits)
qed

lemma emit_if_changed_same [simp]: "emit_if_changed s s = []"
  by (simp add: emit_if_changed_def)


lemma consistent_None: "consistent None"
  by (simp add: consistent_def readStorage_def findActiveMeetingTabIdFromStates_def object_keys_def)

lemma consistent_clean: "consistent st \<Longrightarrow> consistent (fst (cleanStaleStates m now st))"
proof (cases "\<exists>k. stale m now (tabStates (readStorage st)) k")
  case True
  then show ?thesis by (simp add: cleanStaleStates_evicting consistent_def readStorage_def)
next
  case False
  assume "consistent st"
  then show ?thesis using False by (simp add: cleanStaleStates_unchanged)
qed

lemma updateTabState_store:
  "fst (updateTabState m now now' tab s st) =
     (let ts = AList.update tab \<lparr>tabId = tab, state = s, last_updated = now'\<rparr>
                 (tabStates (readStorage (fst (cleanStaleStates m now st))))
      in Some \<lparr>tabStates = ts, activeMeetingTabId = findActiveMeetingTabIdFromStates ts\<rparr>)"
  by (simp add: updateTabState_def Let_def case_prod_beta writeStorage_def)


lemma consistent_update: "consistent (fst (updateTabState m now now' tab s st))"
  by (simp add: updateTabState_store consistent_def readStorage_def Let_def)

lemma consistent_apply_op: "consistent st \<Longrightarrow> consistent (fst (apply_op m x st))"
  by (cases x) (simp_all add: consistent_update consistent_clean init_def)

lemma consistent_run_ops: "consistent st \<Longrightarrow> consistent (run_ops m xs st)"
  by (induction xs arbitrary: st) (simp_all add: consistent_apply_op)

lemma findActive_None:
  "findActiveMeetingTabIdFromStates ts = None \<longleftrightarrow>
     (\<forall>k e. map_of ts k = Some e \<longrightarrow> \<not> in_meeting (state e))"
  unfolding findActiveMeetingTabIdFromStates_def find_in_meeting_None
  using lookup_in_object_keys by blast

lemma findActive_Some:
  assumes "findActiveMeetingTabIdFromStates ts = Some k"
  shows "\<exists>e. map_of ts k = Some e \<and> in_meeting (state e)"
    and "map_of ts k' = Some e' \<Longrightarrow> in_meeting (state e') \<Longrightarrow> k \<le> k'"
proof -
  from assms have f: "find_in_meeting ts (object_keys ts) = Some k"
    by (simp add: findActiveMeetingTabIdFromStates_def)
  from find_in_meeting_Some [OF f] show "\<exists>e. map_of ts k = Some e \<and> in_meeting (state e)"
    by simp
  assume l: "map_of ts k' = Some e'" and i: "in_meeting (state e')"
  from l have "k' \<in> set (object_keys ts)"
    by (rule lookup_in_object_keys)
  then show "k \<le> k'"
    using find_in_meeting_least [OF sorted_object_keys f _ l i] by simp
qed

lemma getCurrentState_consistent:
  assumes "consistent st"
  shows "getCurrentState st =
     (case findActiveMeetingTabIdFromStates (tabStates (readStorage st)) of
        None \<Rightarrow> NULL_STATE
      | Some k \<Rightarrow> if k = 0 then NULL_STATE else state (the (map_of (tabStates (readStorage st)) k)))"
  using assms findActive_Some(1) [of "tabStates (readStorage st)"]
  by (auto simp: getCurrentState_def consistent_def Let_def split: option.splits)

subsection \<open>The derived state\<close>

lemma all_stale_filter:
  assumes "\<forall>k e. map_of ts k = Some e \<longrightarrow> timeout m < now - last_updated e"
  shows "filter (\<lambda>p. \<not> stale m now ts (fst p)) ts = []"
proof -
  have "stale m now ts (fst p)" if "p \<in> set ts" for p
  proof -
    from that have "fst p \<in> fst ` set ts" by (rule imageI)
    then obtain e where "map_of ts (fst p) = Some e"
      by (metis map_of_eq_None_iff not_Some_eq)
    then show ?thesis using assms by (auto simp: stale_iff)
  qed
  then show ?thesis by (simp add: filter_empty_conv)
qed

lemma getCurrentState_no_entries:
  "tabStates (readStorage st) = [] \<Longrightarrow> getCurrentState st = NULL_STATE"
  by (simp add: getCurrentState_def Let_def split: option.splits)

lemma consistent_active_ok: "consistent st \<Longrightarrow> active_ok st"
  using findActive_Some(1) [of "tabStates (readStorage st)"]
  by (auto simp: consistent_def active_ok_def split: option.splits)

lemma active_ok_apply_op: "active_ok st \<Longrightarrow> active_ok (fst (apply_op m x st))"
proof (cases x)
  case (UpdateTabState now now' tab s)
  then show ?thesis by (simp add: consistent_update consistent_active_ok)
next
  case (CleanStaleStates now)
  assume a: "active_ok st"
  show ?thesis
  proof (cases "\<exists>k. stale m now (tabStates (readStorage st)) k")
    case True
    then have "consistent (fst (cleanStaleStates m now st))"
      by (simp add: cleanStaleStates_evicting consistent_def readStorage_def)
    then show ?thesis using CleanStaleStates by (simp add: consistent_active_ok)
  next
    case False
    then show ?thesis using a CleanStaleStates by (simp add: cleanStaleStates_unchanged)
  qed
next
  case (Init now)
  assume a: "active_ok st"
  show ?thesis
  proof (cases "\<exists>k. stale m now (tabStates (readStorage st)) k")
    case True
    then have "consistent (fst (cleanStaleStates m now st))"
      by (simp add: cleanStaleStates_evicting consistent_def readStorage_def)
    then show ?thesis using Init by (simp add: consistent_active_ok init_def)
  next
    case False
    then show ?thesis using a Init by (simp add: cleanStaleStates_unchanged init_def)
  qed
qed

lemma active_ok_run_ops: "active_ok st \<Longrightarrow> active_ok (run_ops m xs st)"
  by (induction xs arbitrary: st) (simp_all add: active_ok_apply_op)

lemma active_ok_None: "active_ok None"
  by (simp add: active_ok_def readStorage_def)

lemma active_ok_current:
  "active_ok st \<Longrightarrow>
     getCurrentState st = NULL_STATE \<or>
     (\<exists>k e. map_of (tabStates (readStorage st)) k = Some e \<and> in_meeting (state e) \<and>
        getCurrentState st = state e)"
  by (auto simp: active_ok_def getCurrentState_def Let_def split: option.splits)

lemmas manager_eval =
  updateTabState_def cleanStaleStates_def init_def readStorage_def writeStorage_def
  object_keys_def findActiveMeetingTabIdFromStates_def getCurrentState_def
  getActiveMeetingTabId_def new_manager_def or_default_def TAB_STATE_TIMEOUT_def
  CLEANUP_INTERVAL_def Let_def

lemma two_tab_run_result:
  "run_ops (new_manager None None) two_tab_run None =
     Some \<lparr>tabStates = [(7, \<lparr>tabId = 7, state = report_a, last_updated = 1000\<rparr>),
                         (3, \<lparr>tabId = 3, state = report_b, last_updated = 2000\<rparr>)],
           activeMeetingTabId = Some 3\<rparr>"
  by (simp add: two_tab_run_def manager_eval report_a_def report_b_def)

lemma consistent_current:
  assumes "consistent st" and "getActiveMeetingTabId st = Some k" and "k \<noteq> 0"
  shows "\<exists>e. map_of (tabStates (readStorage st)) k = Some e \<and> getCurrentState st = state e"
proof -
  from assms(1,2) have "findActiveMeetingTabIdFromStates (tabStates (readStorage st)) = Some k"
    by (simp add: consistent_def getActiveMeetingTabId_def)
  from findActive_Some(1) [OF this] obtain e
    where "map_of (tabStates (readStorage st)) k = Some e" by blast
  then show ?thesis
    using assms(2,3) by (simp add: getCurrentState_def getActiveMeetingTabId_def Let_def)
qed

lemma one_tab_store_lookup:
  "map_of (tabStates (readStorage one_tab_store)) 5 =
     Some \<lparr>tabId = 5, state = report_a, last_updated = 0\<rparr>"
  by (simp add: one_tab_store_def readStorage_def)








section \<open>The claims about the tab state manager\<close>

text \<open>
  Claim C3, as the code has it. When the sweep at \<open>now\<close> finds every stored entry older
  than the timeout, \<open>now - last_updated > timeout\<close> (or finds no entry at all), the store
  it leaves holds no entry and the derived state is \<open>NULL_STATE\<close>, whose \<open>in_meeting\<close> is
  false, whose \<open>meeting_id\<close> is null and whose \<open>participant_count\<close> is 0; it is the
  report of no tab that is in a meeting, so never the last report of the tab that was
  active. An entry whose age equals the timeout is not evicted and is outside this
  statement.
\<close>

theorem all_entries_evicted_gives_null_state:
  assumes "\<forall>k e. map_of (tabStates (readStorage st)) k = Some e \<longrightarrow>
             timeout m < now - last_updated e"
  shows "tabStates (readStorage (fst (cleanStaleStates m now st))) = [] \<and>
         getCurrentState (fst (cleanStaleStates m now st)) = NULL_STATE \<and>
         in_meeting NULL_STATE = False \<and> meeting_id NULL_STATE = None \<and>
         participant_count NULL_STATE = 0 \<and>
         (\<forall>e. in_meeting (state e) \<longrightarrow>
            getCurrentState (fst (cleanStaleStates m now st)) \<noteq> state e)"
proof -
  have empty: "tabStates (readStorage (fst (cleanStaleStates m now st))) = []"
    unfolding cleanStaleStates_tabStates using assms by (rule all_stale_filter)
  then have null: "getCurrentState (fst (cleanStaleStates m now st)) = NULL_STATE"
    by (rule getCurrentState_no_entries)
  have "\<not> in_meeting NULL_STATE" by (simp add: NULL_STATE_def)
  then have "\<forall>e. in_meeting (state e) \<longrightarrow>
      getCurrentState (fst (cleanStaleStates m now st)) \<noteq> state e"
    unfolding null by metis
  then show ?thesis using empty null by (simp add: NULL_STATE_def)
qed

theorem all_entries_evicted_gives_null_state_witness:
  "getCurrentState one_tab_store = report_a \<and>
   getCurrentState (fst (cleanStaleStates (new_manager None None) 60001 one_tab_store))
     = NULL_STATE \<and>
   NULL_STATE \<noteq> report_a"
proof -
  have h: "\<forall>k e. map_of (tabStates (readStorage one_tab_store)) k = Some e \<longrightarrow>
      timeout (new_manager None None) < 60001 - last_updated e"
    by (simp add: one_tab_store_def readStorage_def new_manager_def or_default_def
        TAB_STATE_TIMEOUT_def)
  have "getCurrentState one_tab_store = report_a"
    by (simp add: one_tab_store_def getCurrentState_def readStorage_def)
  moreover have "NULL_STATE \<noteq> report_a"
    by (simp add: NULL_STATE_def report_a_def)
  ultimately show ?thesis
    using all_entries_evicted_gives_null_state [OF h] by blast
qed

text \<open>
  Claim C3 as stated fails at the boundary: the one stored report has an age equal to
  the timeout, so no report is live in the wording of the specification; the sweep
  keeps it, and the derived state is still that report and not \<open>NULL_STATE\<close>.
\<close>

theorem report_at_the_timeout_stays_current:
  "spec_none_live (timeout (new_manager None None)) 60000
     (tabStates (readStorage one_tab_store)) \<and>
   getCurrentState (fst (cleanStaleStates (new_manager None None) 60000 one_tab_store)) =
     report_a \<and>
   report_a \<noteq> NULL_STATE"
  by (simp add: spec_none_live_def spec_live_def manager_eval one_tab_store_def
      report_a_def NULL_STATE_def)

text \<open>
  Claim C4, as the code has it. The sweep at \<open>now\<close> evicts an entry exactly when
  \<open>now - last_updated > timeout\<close>, so an entry is kept exactly when
  \<open>now - last_updated \<le> timeout\<close>: every other entry is read back unchanged. When the
  sweep evicts an entry it recomputes the active id from the entries it kept; when it
  evicts none it leaves the store as it was and emits nothing. The defaults are a
  timeout of 60000 ms and a sweep interval of 5000 ms.
\<close>

theorem sweep_evicts_entries_older_than_timeout:
  "map_of (tabStates (readStorage (fst (cleanStaleStates m now st)))) k =
     (case map_of (tabStates (readStorage st)) k of
        None \<Rightarrow> None
      | Some e \<Rightarrow> if timeout m < now - last_updated e then None else Some e) \<and>
   ((\<exists>k. stale m now (tabStates (readStorage st)) k) \<longrightarrow>
      activeMeetingTabId (readStorage (fst (cleanStaleStates m now st))) =
        findActiveMeetingTabIdFromStates
          (tabStates (readStorage (fst (cleanStaleStates m now st))))) \<and>
   ((\<forall>k. \<not> stale m now (tabStates (readStorage st)) k) \<longrightarrow>
      cleanStaleStates m now st = (st, [])) \<and>
   timeout (new_manager None None) = 60000 \<and>
   cleanupInterval (new_manager None None) = 5000"
proof -
  have "(\<exists>k. stale m now (tabStates (readStorage st)) k) \<longrightarrow>
      activeMeetingTabId (readStorage (fst (cleanStaleStates m now st))) =
        findActiveMeetingTabIdFromStates
          (tabStates (readStorage (fst (cleanStaleStates m now st))))"
    by (simp add: cleanStaleStates_evicting readStorage_def)
  moreover have "(\<forall>k. \<not> stale m now (tabStates (readStorage st)) k) \<longrightarrow>
      cleanStaleStates m now st = (st, [])"
    by (simp add: cleanStaleStates_unchanged)
  moreover have "timeout (new_manager None None) = 60000 \<and>
      cleanupInterval (new_manager None None) = 5000"
    by (simp add: new_manager_def or_default_def TAB_STATE_TIMEOUT_def CLEANUP_INTERVAL_def)
  ultimately show ?thesis
    using cleanStaleStates_lookup [of m now st k] by blast
qed

theorem sweep_evicts_entries_older_than_timeout_witness:
  "stale (new_manager None None) 60001 (tabStates (readStorage one_tab_store)) 5 \<and>
   map_of (tabStates (readStorage
     (fst (cleanStaleStates (new_manager None None) 60001 one_tab_store)))) 5 = None \<and>
   activeMeetingTabId (readStorage
     (fst (cleanStaleStates (new_manager None None) 60001 one_tab_store))) = None \<and>
   cleanStaleStates (new_manager None None) 1000 one_tab_store = (one_tab_store, [])"
proof -
  have s: "stale (new_manager None None) 60001 (tabStates (readStorage one_tab_store)) 5"
    by (simp add: stale_def one_tab_store_lookup new_manager_def or_default_def
        TAB_STATE_TIMEOUT_def)
  have t: "timeout (new_manager None None) < 60001 - 0"
    by (simp add: new_manager_def or_default_def TAB_STATE_TIMEOUT_def)
  note w = sweep_evicts_entries_older_than_timeout [of "new_manager None None" 60001 one_tab_store 5]
  from w t have l: "map_of (tabStates (readStorage
      (fst (cleanStaleStates (new_manager None None) 60001 one_tab_store)))) 5 = None"
    by (simp add: one_tab_store_lookup)
  from w s have "activeMeetingTabId (readStorage
      (fst (cleanStaleStates (new_manager None None) 60001 one_tab_store))) =
      findActiveMeetingTabIdFromStates (tabStates (readStorage
        (fst (cleanStaleStates (new_manager None None) 60001 one_tab_store))))"
    by blast
  also have "\<dots> = None"
    by (simp add: manager_eval one_tab_store_def)
  finally have a: "activeMeetingTabId (readStorage
      (fst (cleanStaleStates (new_manager None None) 60001 one_tab_store))) = None" .
  have n: "\<forall>k. \<not> stale (new_manager None None) 1000 (tabStates (readStorage one_tab_store)) k"
    by (simp add: stale_def one_tab_store_def readStorage_def new_manager_def or_default_def
        TAB_STATE_TIMEOUT_def)
  from sweep_evicts_entries_older_than_timeout [of "new_manager None None" 1000 one_tab_store 5] n
  have "cleanStaleStates (new_manager None None) 1000 one_tab_store = (one_tab_store, [])"
    by blast
  then show ?thesis using s l a by simp
qed

text \<open>
  Claim C4 as stated fails at the boundary: an entry whose age equals the timeout is not
  live in the wording of the specification, yet the sweep keeps it and it stays the
  source of the derived state.
\<close>

theorem entry_at_the_timeout_is_kept:
  "\<not> spec_live (timeout (new_manager None None)) 60000
       \<lparr>tabId = 5, state = report_a, last_updated = 0\<rparr> \<and>
   map_of (tabStates (readStorage
     (fst (cleanStaleStates (new_manager None None) 60000 one_tab_store)))) 5 =
     Some \<lparr>tabId = 5, state = report_a, last_updated = 0\<rparr> \<and>
   getCurrentState (fst (cleanStaleStates (new_manager None None) 60000 one_tab_store)) =
     report_a"
  by (simp add: spec_live_def manager_eval one_tab_store_def)

text \<open>
  Claim C1, as the code has it. The finder returns the numerically smallest tab id among
  the stored entries whose report is in a meeting, and null exactly when no stored entry
  is in a meeting; neither the order of arrival nor \<open>last_updated\<close> enters the choice.
  The store left by \<open>updateTabState\<close>, and every store reached from the empty one by
  the public operations, holds that id as its active id; and in such a store the derived
  state is the report of that one entry (for a tab id other than 0, which the
  truthiness test of \<open>getCurrentState\<close> treats as no tab).
\<close>

theorem authoritative_is_least_tab_id_in_meeting:
  "(findActiveMeetingTabIdFromStates ts = None \<longleftrightarrow>
      (\<forall>k e. map_of ts k = Some e \<longrightarrow> \<not> in_meeting (state e))) \<and>
   (\<forall>k. findActiveMeetingTabIdFromStates ts = Some k \<longrightarrow>
      (\<exists>e. map_of ts k = Some e \<and> in_meeting (state e)) \<and>
      (\<forall>k' e'. map_of ts k' = Some e' \<and> in_meeting (state e') \<longrightarrow> k \<le> k')) \<and>
   consistent (fst (updateTabState m now now' tab s st)) \<and>
   consistent (run_ops m ops None) \<and>
   (\<forall>k. consistent st \<and> getActiveMeetingTabId st = Some k \<and> k \<noteq> 0 \<longrightarrow>
      (\<exists>e. map_of (tabStates (readStorage st)) k = Some e \<and> getCurrentState st = state e))"
proof -
  have a: "findActiveMeetingTabIdFromStates ts = None \<longleftrightarrow>
      (\<forall>k e. map_of ts k = Some e \<longrightarrow> \<not> in_meeting (state e))"
    by (rule findActive_None)
  have b: "\<forall>k. findActiveMeetingTabIdFromStates ts = Some k \<longrightarrow>
      (\<exists>e. map_of ts k = Some e \<and> in_meeting (state e)) \<and>
      (\<forall>k' e'. map_of ts k' = Some e' \<and> in_meeting (state e') \<longrightarrow> k \<le> k')"
    using findActive_Some by blast
  have c: "consistent (fst (updateTabState m now now' tab s st))"
    by (rule consistent_update)
  have d: "consistent (run_ops m ops None)"
    by (rule consistent_run_ops [OF consistent_None])
  have e: "\<forall>k. consistent st \<and> getActiveMeetingTabId st = Some k \<and> k \<noteq> 0 \<longrightarrow>
      (\<exists>e. map_of (tabStates (readStorage st)) k = Some e \<and> getCurrentState st = state e)"
    using consistent_current [of st] by blast
  from a b c d e show ?thesis by blast
qed

theorem authoritative_is_least_tab_id_in_meeting_witness:
  "findActiveMeetingTabIdFromStates
     (tabStates (readStorage (run_ops (new_manager None None) two_tab_run None))) = Some 3 \<and>
   getActiveMeetingTabId (run_ops (new_manager None None) two_tab_run None) = Some 3 \<and>
   map_of (tabStates (readStorage (run_ops (new_manager None None) two_tab_run None))) 7 =
     Some \<lparr>tabId = 7, state = report_a, last_updated = 1000\<rparr> \<and>
   in_meeting report_a \<and> (3::nat) \<le> 7 \<and>
   getCurrentState (run_ops (new_manager None None) two_tab_run None) = report_b"
proof -
  let ?st = "run_ops (new_manager None None) two_tab_run None"
  note w = authoritative_is_least_tab_id_in_meeting [of "tabStates (readStorage ?st)"
      "new_manager None None" _ _ _ _ ?st two_tab_run]
  have a: "getActiveMeetingTabId ?st = Some 3"
    by (simp add: two_tab_run_result getActiveMeetingTabId_def readStorage_def)
  from w have c: "consistent ?st" by blast
  then have f: "findActiveMeetingTabIdFromStates (tabStates (readStorage ?st)) = Some 3"
    using a by (simp add: consistent_def getActiveMeetingTabId_def)
  have l7: "map_of (tabStates (readStorage ?st)) 7 =
      Some \<lparr>tabId = 7, state = report_a, last_updated = 1000\<rparr>"
    by (simp add: two_tab_run_result readStorage_def)
  have l3: "map_of (tabStates (readStorage ?st)) 3 =
      Some \<lparr>tabId = 3, state = report_b, last_updated = 2000\<rparr>"
    by (simp add: two_tab_run_result readStorage_def)
  have m: "in_meeting report_a" by (simp add: report_a_def)
  from w f l7 m have le: "(3::nat) \<le> 7" by simp
  from w c a obtain e where "map_of (tabStates (readStorage ?st)) 3 = Some e"
    and "getCurrentState ?st = state e"
    by (metis zero_neq_numeral)
  then have "getCurrentState ?st = report_b" using l3 by auto
  then show ?thesis using f a l7 m le by simp
qed

text \<open>
  Claim C1 as stated fails: tab 7 reports first (at 1000), tab 3 second (at 2000), both
  in a meeting and both stored. The first arrival, which also has the earliest
  \<open>last_updated\<close>, is tab 7; the active id is 3 and the derived state is the report of
  tab 3.
\<close>

theorem first_arrival_is_not_chosen:
  "map_of (tabStates (readStorage (run_ops (new_manager None None) two_tab_run None))) 7 =
     Some \<lparr>tabId = 7, state = report_a, last_updated = 1000\<rparr> \<and>
   map_of (tabStates (readStorage (run_ops (new_manager None None) two_tab_run None))) 3 =
     Some \<lparr>tabId = 3, state = report_b, last_updated = 2000\<rparr> \<and>
   spec_authoritative
     [(7, \<lparr>tabId = 7, state = report_a, last_updated = 1000\<rparr>),
      (3, \<lparr>tabId = 3, state = report_b, last_updated = 2000\<rparr>)] = Some 7 \<and>
   getActiveMeetingTabId (run_ops (new_manager None None) two_tab_run None) = Some 3 \<and>
   getCurrentState (run_ops (new_manager None None) two_tab_run None) = report_b \<and>
   report_b \<noteq> report_a"
  by (simp add: two_tab_run_result getActiveMeetingTabId_def getCurrentState_def
      readStorage_def spec_authoritative_def report_a_def report_b_def)

text \<open>
  Claim C9. The empty store satisfies \<open>active_ok\<close>, every public operation
  (\<open>updateTabState\<close>, \<open>_cleanStaleStates\<close>, \<open>init\<close>) preserves it, so every store
  reached from the empty one has an active id that is null or names a stored entry whose
  report is in a meeting; and the derived state of such a store is \<open>NULL_STATE\<close> or the
  report of a stored entry that is in a meeting.
\<close>

theorem active_id_names_stored_meeting_tab:
  "active_ok None \<and>
   (active_ok st \<longrightarrow> active_ok (fst (apply_op m x st))) \<and>
   active_ok (run_ops m ops None) \<and>
   (getCurrentState (run_ops m ops None) = NULL_STATE \<or>
    (\<exists>k e. map_of (tabStates (readStorage (run_ops m ops None))) k = Some e \<and>
       in_meeting (state e) \<and> getCurrentState (run_ops m ops None) = state e))"
  using active_ok_None active_ok_apply_op [of st m x] active_ok_run_ops [OF active_ok_None, of m ops]
    active_ok_current [of "run_ops m ops None"]
  by blast

theorem active_id_names_stored_meeting_tab_witness:
  "active_ok (fst (apply_op (new_manager None None) (UpdateTabState 1000 1000 7 report_a) None)) \<and>
   active_ok (run_ops (new_manager None None) two_tab_run None) \<and>
   getActiveMeetingTabId (run_ops (new_manager None None) two_tab_run None) = Some 3 \<and>
   getCurrentState (run_ops (new_manager None None) two_tab_run None) = report_b \<and>
   in_meeting report_b"
proof -
  note w = active_id_names_stored_meeting_tab [of None "new_manager None None"
      "UpdateTabState 1000 1000 7 report_a" two_tab_run]
  from w have "active_ok None" by blast
  with w have "active_ok
      (fst (apply_op (new_manager None None) (UpdateTabState 1000 1000 7 report_a) None))"
    by blast
  moreover from w have "active_ok (run_ops (new_manager None None) two_tab_run None)"
    by blast
  ultimately show ?thesis
    by (simp add: two_tab_run_result getActiveMeetingTabId_def getCurrentState_def
        readStorage_def report_b_def)
qed



section \<open>Properties of signing\<close>

lemmas json_eval =
  js_def quote_json_string_def is_high_surrogate_def is_low_surrogate_def
  unicode_escape_def hex_digit_def dec_digits.simps

lemmas b64_eval =
  btoa_def base64UrlEncode_def b64_char_def b64_alphabet_def strip_padding_def

lemma btoa_bytes: "btoa (map unat (bs :: byte list)) = Inr (b64_groups (map unat bs))"
proof -
  have "unat b \<le> 255" for b :: byte
    using unsigned_less [of b, where ?'a = nat] by simp
  then have "list_all (\<lambda>c. c \<le> 255) (map unat bs)"
    by (simp add: list_all_iff)
  then show ?thesis by (simp add: btoa_def)
qed

lemma encode_signature:
  "\<exists>s. base64UrlEncode (ArrayBufferData bs) = Inr s"
  by (simp add: base64UrlEncode_def btoa_bytes)

lemma header_json:
  "JSON_stringify jwt_header =
     [123, 34, 97, 108, 103, 34, 58, 34, 69, 83, 50, 53, 54, 34, 44, 34, 116, 121, 112, 34,
      58, 34, 74, 87, 84, 34, 125]"
  by (simp add: jwt_header_def json_eval)

lemma header_encoded:
  "base64UrlEncode (StringData (JSON_stringify jwt_header)) =
     Inr ''eyJhbGciOiJFUzI1NiIsInR5cCI6IkpXVCJ9''"
  unfolding header_json by (simp add: b64_eval)

lemma signMessage_no_key:
  "privateKey a = None \<Longrightarrow>
     signMessage sign now now' a payload = Inl (Error ''No private key available'')"
  by (simp add: signMessage_def)

lemma signMessage_with_key:
  assumes "privateKey a = Some key"
  shows "signMessage sign now now' a payload =
     (case base64UrlEncode (StringData (JSON_stringify (JObj (fullPayload now now' a payload)))) of
        Inl e \<Rightarrow> Inl e
      | Inr encodedPayload \<Rightarrow>
          (case base64UrlEncode (ArrayBufferData (sign key (encode_ascii
                  (''eyJhbGciOiJFUzI1NiIsInR5cCI6IkpXVCJ9'' @ ''.'' @ encodedPayload)))) of
             Inl e \<Rightarrow> Inl e
           | Inr encodedSignature \<Rightarrow>
               Inr (''eyJhbGciOiJFUzI1NiIsInR5cCI6IkpXVCJ9'' @ ''.'' @ encodedPayload @ ''.'' @
                    encodedSignature)))"
  using assms
  by (simp add: signMessage_def header_encoded Let_def split: sum.splits)

lemma claim_names_differ:
  "js ''iat'' \<noteq> js ''exp''" "js ''iat'' \<noteq> js ''instance_id''" "js ''exp'' \<noteq> js ''instance_id''"
  by (simp_all add: js_def)

lemma fullPayload_claims:
  "map_of (fullPayload now now' a payload) (js ''iat'') = Some (JNum (now div 1000))"
  "map_of (fullPayload now now' a payload) (js ''exp'') = Some (JNum (now' div 1000 + 300))"
  "map_of (fullPayload now now' a payload) (js ''instance_id'') = Some (getInstanceId a)"
  using claim_names_differ
  by (simp_all add: fullPayload_def AList.update_conv')

lemma fullPayload_same_second:
  "now div 1000 = now' div 1000 \<Longrightarrow>
     map_of (fullPayload now now' a payload) (js ''exp'') = Some (JNum (now div 1000 + 300))"
  by (simp add: fullPayload_claims)

lemma sample_fullPayload:
  "fullPayload 999 1000 sample_auth (payload_object heartbeat_payload) =
     [(js ''type'', JStr (js ''heartbeat'')), (js ''data'', JObj []),
      (js ''iat'', JNum 0), (js ''exp'', JNum 301), (js ''instance_id'', JStr (js ''inst-1''))]"
  by (simp add: fullPayload_def payload_object_def heartbeat_payload_def sample_auth_def
      getInstanceId_def or_null_def js_def)

lemma sample_payload_json:
  "JSON_stringify (JObj [(js ''type'', JStr (js ''heartbeat'')), (js ''data'', JObj []),
      (js ''iat'', JNum 0), (js ''exp'', JNum 301), (js ''instance_id'', JStr (js ''inst-1''))]) =
   [123, 34, 116, 121, 112, 101, 34, 58, 34, 104, 101, 97, 114, 116, 98, 101,
    97, 116, 34, 44, 34, 100, 97, 116, 97, 34, 58, 123, 125, 44, 34, 105, 97,
    116, 34, 58, 48, 44, 34, 101, 120, 112, 34, 58, 51, 48, 49, 44, 34, 105,
    110, 115, 116, 97, 110, 99, 101, 95, 105, 100, 34, 58, 34, 105, 110, 115,
    116, 45, 49, 34, 125]"
  by (simp add: json_eval)

lemma sample_payload_encoded:
  "base64UrlEncode (StringData (JSON_stringify (JObj
      [(js ''type'', JStr (js ''heartbeat'')), (js ''data'', JObj []),
       (js ''iat'', JNum 0), (js ''exp'', JNum 301), (js ''instance_id'', JStr (js ''inst-1''))]))) =
   Inr ''eyJ0eXBlIjoiaGVhcnRiZWF0IiwiZGF0YSI6e30sImlhdCI6MCwiZXhwIjozMDEsImluc3RhbmNlX2lkIjoiaW5zdC0xIn0''"
  unfolding sample_payload_json by (simp add: b64_eval)

section \<open>Properties of the client\<close>

lemma ws_send_cases:
  "ws_send message c =
     (if ws_open c then (c\<lparr>sent := sent c @ [JSON_stringify message]\<rparr>, None)
      else (c, Some (Error ''WebSocket not connected'')))"
  by (simp add: ws_send_def)

lemma sendState_unauthorized:
  "pairing_state c \<noteq> Authorized \<Longrightarrow>
     sendState sign now now' st c = (c, Some (Error ''Not authorized. Pairing required.''))"
  by (simp add: sendState_def isAuthorized_def)

lemma sendState_failure_keeps_client:
  "snd (sendState sign now now' st c) \<noteq> None \<Longrightarrow> fst (sendState sign now now' st c) = c"
  by (auto simp: sendState_def ws_send_cases split: sum.splits if_splits)

lemma sendState_success:
  assumes "snd (sendState sign now now' st c) = None"
  shows "pairing_state c = Authorized \<and> ws_open c \<and>
     (\<exists>message.
        createSignedMessage sign now now' \<lparr>payload_type = js ''state'', payload_data = st\<rparr> c
          = Inr message \<and>
        fst (sendState sign now now' st c) = c\<lparr>sent := sent c @ [JSON_stringify message]\<rparr>)"
  using assms
  by (auto simp: sendState_def isAuthorized_def ws_send_cases split: sum.splits if_splits)

lemma signMessage_succeeds:
  assumes "privateKey a = Some key"
    and "list_all (\<lambda>u. u \<le> 255) (JSON_stringify (JObj (fullPayload now now' a payload)))"
  shows "\<exists>token. signMessage sign now now' a payload = Inr token"
proof -
  obtain p where p: "base64UrlEncode
      (StringData (JSON_stringify (JObj (fullPayload now now' a payload)))) = Inr p"
    using assms(2) by (simp add: base64UrlEncode_def btoa_def)
  obtain s where "base64UrlEncode (ArrayBufferData (sign key (encode_ascii
      (''eyJhbGciOiJFUzI1NiIsInR5cCI6IkpXVCJ9'' @ ''.'' @ p)))) = Inr s"
    using encode_signature by blast
  then show ?thesis
    unfolding signMessage_with_key [OF assms(1)] p by simp
qed

lemma sendState_succeeds:
  assumes "pairing_state c = Authorized" and "ws_open c" and "privateKey (auth c) = Some key"
    and "list_all (\<lambda>u. u \<le> 255) (JSON_stringify (JObj (fullPayload now now' (auth c)
           (payload_object \<lparr>payload_type = js ''state'', payload_data = st\<rparr>))))"
  shows "snd (sendState sign now now' st c) = None"
proof -
  obtain token where "signMessage sign now now' (auth c)
      (payload_object \<lparr>payload_type = js ''state'', payload_data = st\<rparr>) = Inr token"
    using signMessage_succeeds [OF assms(3,4)] by blast
  then show ?thesis
    using assms(1,2)
    by (simp add: sendState_def isAuthorized_def createSignedMessage_def ws_send_cases)
qed

lemma ready_client_sends:
  "snd (sendState sign 1000 1000 JNull ready_client) = None"
proof (rule sendState_succeeds)
  show "pairing_state ready_client = Authorized" by (simp add: ready_client_def)
  show "ws_open ready_client" by (simp add: ready_client_def)
  show "privateKey (auth ready_client) = Some (CryptoKey 1)"
    by (simp add: ready_client_def sample_auth_def)
  show "list_all (\<lambda>u. u \<le> 255) (JSON_stringify (JObj (fullPayload 1000 1000 (auth ready_client)
           (payload_object \<lparr>payload_type = js ''state'', payload_data = JNull\<rparr>))))"
    by (simp add: ready_client_def sample_auth_def fullPayload_def payload_object_def
        getInstanceId_def or_null_def json_eval)
qed

lemma one_timer_new: "one_timer (new_client ext)"
  by (simp add: one_timer_def new_client_def)

lemma startHeartbeat_running: "timer_set c \<Longrightarrow> startHeartbeat c = c"
  by (simp add: startHeartbeat_def)

lemma one_timer_start: "one_timer c \<Longrightarrow> one_timer (startHeartbeat c)"
  by (auto simp: one_timer_def startHeartbeat_def timer_set_def split: option.splits)

lemma stopHeartbeat_clears:
  "one_timer c \<Longrightarrow> heartbeatTimer (stopHeartbeat c) = None \<and> intervals (stopHeartbeat c) = []"
  by (auto simp: one_timer_def stopHeartbeat_def split: option.splits)

lemma one_timer_stop: "one_timer c \<Longrightarrow> one_timer (stopHeartbeat c)"
  using stopHeartbeat_clears [of c] by (simp add: one_timer_def)

lemma timers_emit [simp]:
  "heartbeatTimer (emit ev c) = heartbeatTimer c" "intervals (emit ev c) = intervals c"
  by (simp_all add: emit_def)

lemma timers_ws_send [simp]:
  "heartbeatTimer (fst (ws_send message c)) = heartbeatTimer c"
  "intervals (fst (ws_send message c)) = intervals c"
  by (simp_all add: ws_send_def)

lemma timers_authenticate [simp]:
  "heartbeatTimer (fst (authenticate metadata c)) = heartbeatTimer c"
  "intervals (fst (authenticate metadata c)) = intervals c"
  by (simp_all add: authenticate_def ws_send_def)

lemma timers_markUnauthorized [simp]:
  "heartbeatTimer (markUnauthorized c) = heartbeatTimer c"
  "intervals (markUnauthorized c) = intervals c"
  by (simp_all add: markUnauthorized_def)

lemma timers_ws_disconnect [simp]:
  "heartbeatTimer (ws_disconnect c) = heartbeatTimer c"
  "intervals (ws_disconnect c) = intervals c"
  by (simp_all add: ws_disconnect_def)

lemma timers_sendState [simp]:
  "heartbeatTimer (fst (sendState sign now now' st c)) = heartbeatTimer c"
  "intervals (fst (sendState sign now now' st c)) = intervals c"
  by (simp_all add: sendState_def ws_send_def split: sum.splits)

lemma timers_heartbeat_callback [simp]:
  "heartbeatTimer (heartbeat_callback sign now now' c) = heartbeatTimer c"
  "intervals (heartbeat_callback sign now now' c) = intervals c"
  by (simp_all add: heartbeat_callback_def split: sum.splits)

lemma one_timer_onPairingAuthorized: "one_timer c \<Longrightarrow> one_timer (onPairingAuthorized c)"
  using one_timer_start [of c]
  by (simp add: onPairingAuthorized_def one_timer_def cong: option.case_cong)

lemma one_timer_pairing_state:
  "one_timer (c\<lparr>pairing_state := p\<rparr>) = one_timer c"
  by (simp add: one_timer_def cong: option.case_cong)

lemma one_timer_ws_open:
  "one_timer (c\<lparr>ws_open := b\<rparr>) = one_timer c"
  by (simp add: one_timer_def cong: option.case_cong)

lemma one_timer_emit: "one_timer (emit ev c) = one_timer c"
  by (simp add: one_timer_def cong: option.case_cong)

lemma one_timer_authenticate: "one_timer (fst (authenticate metadata c)) = one_timer c"
  by (simp add: one_timer_def cong: option.case_cong)

lemma one_timer_pairing_handleMessage:
  "one_timer c \<Longrightarrow> one_timer (pairing_handleMessage message c)"
  by (simp add: pairing_handleMessage_def one_timer_onPairingAuthorized one_timer_emit
      one_timer_pairing_state)

lemma one_timer_disconnected:
  "one_timer c \<Longrightarrow>
     heartbeatTimer (onWebSocketDisconnected reason c) = None \<and>
     intervals (onWebSocketDisconnected reason c) = []"
  using stopHeartbeat_clears [of c] by (simp add: onWebSocketDisconnected_def)

lemma one_timer_disconnect:
  "one_timer c \<Longrightarrow> heartbeatTimer (disconnect c) = None \<and> intervals (disconnect c) = []"
  using stopHeartbeat_clears [of c] by (simp add: disconnect_def)

lemma one_timer_handleServerError:
  "one_timer c \<Longrightarrow> one_timer (fst (handleServerError metadata message c))"
proof -
  assume a: "one_timer c"
  then have "one_timer (markUnauthorized c)"
    by (simp add: markUnauthorized_def one_timer_pairing_state)
  then have "one_timer (stopHeartbeat (markUnauthorized c))"
    by (rule one_timer_stop)
  then show ?thesis
    using a by (simp add: handleServerError_def one_timer_emit one_timer_authenticate)
qed

lemma one_timer_handleServerMessage:
  "one_timer c \<Longrightarrow> one_timer (fst (handleServerMessage metadata message c))"
  by (simp add: handleServerMessage_def one_timer_handleServerError
      one_timer_pairing_handleMessage one_timer_emit)

lemma one_timer_onWebSocketConnected:
  "one_timer c \<Longrightarrow> one_timer (onWebSocketConnected metadata c)"
proof -
  assume "one_timer c"
  then have "one_timer (fst (authenticate metadata c))"
    by (simp add: one_timer_authenticate)
  then show ?thesis
    by (cases "authenticate metadata c")
      (auto simp: onWebSocketConnected_def one_timer_emit split: option.splits)
qed

lemma one_timer_step: "one_timer c \<Longrightarrow> one_timer (client_step sign x c)"
proof (cases x)
  case (AuthInitialized iid key jwk)
  assume "one_timer c"
  then show ?thesis
    using AuthInitialized by (simp add: one_timer_def cong: option.case_cong)
next
  case (SendState now now' st)
  assume "one_timer c"
  then show ?thesis
    using SendState by (simp add: one_timer_def cong: option.case_cong)
next
  case Disconnect
  assume "one_timer c"
  then show ?thesis using Disconnect one_timer_disconnect [of c] by (simp add: one_timer_def)
next
  case (SocketOpened metadata)
  assume "one_timer c"
  then show ?thesis
    using SocketOpened by (simp add: one_timer_onWebSocketConnected one_timer_ws_open)
next
  case (SocketClosed reason)
  assume "one_timer c"
  then have "one_timer (c\<lparr>ws_open := False\<rparr>)" by (simp add: one_timer_ws_open)
  from one_timer_disconnected [OF this, of reason] show ?thesis
    using SocketClosed by (simp add: one_timer_def)
next
  case (SocketMessage metadata message)
  assume "one_timer c"
  then show ?thesis using SocketMessage by (simp add: one_timer_handleServerMessage)
next
  case SocketError
  assume "one_timer c"
  then show ?thesis using SocketError by (simp add: one_timer_emit)
next
  case (TimerFired t now now')
  assume "one_timer c"
  then show ?thesis
    using TimerFired by (simp add: one_timer_def cong: option.case_cong)
qed

lemma one_timer_run: "one_timer c \<Longrightarrow> one_timer (client_run sign xs c)"
  by (induction xs arbitrary: c) (simp_all add: one_timer_step)

lemma one_timer_length: "one_timer c \<Longrightarrow> length (intervals c) \<le> 1"
  by (auto simp: one_timer_def split: option.splits)

lemma authorized_twice:
  "intervals (onPairingAuthorized (onPairingAuthorized c)) = intervals (onPairingAuthorized c)"
  by (simp add: onPairingAuthorized_def startHeartbeat_def timer_set_def emit_def)

lemmas client_eval =
  new_client_def new_auth_manager_def emit_def ws_send_def authenticate_def
  onWebSocketConnected_def onWebSocketDisconnected_def handleServerMessage_def
  pairing_handleMessage_def onPairingAuthorized_def startHeartbeat_def stopHeartbeat_def
  timer_set_def disconnect_def ws_disconnect_def markUnauthorized_def

lemma sample_session_timers:
  "intervals (client_run sign sample_session (new_client (js ''ext''))) = [1] \<and>
   heartbeatTimer (client_run sign sample_session (new_client (js ''ext''))) = Some 1 \<and>
   pairing_state (client_run sign sample_session (new_client (js ''ext''))) = Authorized"
  by (simp add: sample_session_def success_message_def client_eval)

section \<open>The claims about signing and the client\<close>

text \<open>
  Claim C5, at an input where the code departs from it. \<^verbatim>\<open>signMessage\<close> reads the
  clock once for \<open>iat\<close> and once more for \<open>exp\<close>. When the first reading is 999 ms and
  the second 1000 ms, the signed payload carries \<open>iat = 0\<close> and \<open>exp = 301\<close>: the token
  expires 301 seconds after it was issued, not 300. The rest is as the claim says: the
  payload carries the instance id, and the token is the encoded header, the encoded
  payload and the encoded signature of the two, made with the private key.
\<close>

theorem token_expires_301_seconds_after_issue:
  "fullPayload 999 1000 sample_auth (payload_object heartbeat_payload) =
     [(js ''type'', JStr (js ''heartbeat'')), (js ''data'', JObj []),
      (js ''iat'', JNum 0), (js ''exp'', JNum 301), (js ''instance_id'', JStr (js ''inst-1''))] \<and>
   (\<exists>encodedSignature.
      base64UrlEncode (ArrayBufferData (sign (CryptoKey 1) (encode_ascii
        ''eyJhbGciOiJFUzI1NiIsInR5cCI6IkpXVCJ9.eyJ0eXBlIjoiaGVhcnRiZWF0IiwiZGF0YSI6e30sImlhdCI6MCwiZXhwIjozMDEsImluc3RhbmNlX2lkIjoiaW5zdC0xIn0'')))
        = Inr encodedSignature \<and>
      signMessage sign 999 1000 sample_auth (payload_object heartbeat_payload) =
        Inr (''eyJhbGciOiJFUzI1NiIsInR5cCI6IkpXVCJ9.eyJ0eXBlIjoiaGVhcnRiZWF0IiwiZGF0YSI6e30sImlhdCI6MCwiZXhwIjozMDEsImluc3RhbmNlX2lkIjoiaW5zdC0xIn0.''
             @ encodedSignature))"
proof -
  let ?input = "''eyJhbGciOiJFUzI1NiIsInR5cCI6IkpXVCJ9.eyJ0eXBlIjoiaGVhcnRiZWF0IiwiZGF0YSI6e30sImlhdCI6MCwiZXhwIjozMDEsImluc3RhbmNlX2lkIjoiaW5zdC0xIn0''"
  obtain s where s: "base64UrlEncode (ArrayBufferData (sign (CryptoKey 1) (encode_ascii ?input))) = Inr s"
    using encode_signature by blast
  have k: "privateKey sample_auth = Some (CryptoKey 1)"
    by (simp add: sample_auth_def)
  have "signMessage sign 999 1000 sample_auth (payload_object heartbeat_payload) =
      Inr (?input @ ''.'' @ s)"
    unfolding signMessage_with_key [OF k] sample_fullPayload sample_payload_encoded
    using s by simp
  then show ?thesis using s sample_fullPayload by auto
qed

text \<open>
  Claim C8. With no private key loaded (the manager as the constructor leaves it, or any
  manager whose \<open>privateKey\<close> is null) \<^verbatim>\<open>signMessage\<close> throws the error
  \<open>No private key available\<close> and returns no token, whatever the payload, the clock
  and the signing primitive.
\<close>

theorem signing_without_private_key_throws:
  "signMessage sign now now' new_auth_manager payload = Inl (Error ''No private key available'') \<and>
   signMessage sign now now' (a\<lparr>privateKey := None\<rparr>) payload =
     Inl (Error ''No private key available'') \<and>
   (privateKey a = None \<longrightarrow>
      signMessage sign now now' a payload = Inl (Error ''No private key available'') \<and>
      (\<forall>token. signMessage sign now now' a payload \<noteq> Inr token))"
  by (simp add: signMessage_no_key new_auth_manager_def)

theorem signing_without_private_key_throws_witness:
  "privateKey (sample_auth\<lparr>privateKey := None\<rparr>) = None \<and>
   signMessage (\<lambda>k d. d) 999 1000 (sample_auth\<lparr>privateKey := None\<rparr>)
     (payload_object heartbeat_payload) = Inl (Error ''No private key available'')"
  using signing_without_private_key_throws [of "\<lambda>k d. d" 999 1000 "payload_object heartbeat_payload"
      "sample_auth\<lparr>privateKey := None\<rparr>"]
  by simp

text \<open>
  Claim C6. While the pairing phase is not \<open>authorized\<close>, \<^verbatim>\<open>sendState\<close> throws the error
  \<open>Not authorized. Pairing required.\<close> and leaves the client as it was; whenever it
  throws, nothing has been handed to the socket. When it returns without an error, the
  phase was \<open>authorized\<close>, the socket was open, and the only change is that the signed
  frame has been appended to the frames handed to the socket.
\<close>

theorem sendState_requires_authorization:
  "(pairing_state c \<noteq> Authorized \<longrightarrow>
      sendState sign now now' st c = (c, Some (Error ''Not authorized. Pairing required.''))) \<and>
   (snd (sendState sign now now' st c) \<noteq> None \<longrightarrow> fst (sendState sign now now' st c) = c) \<and>
   (snd (sendState sign now now' st c) = None \<longrightarrow>
      pairing_state c = Authorized \<and> ws_open c \<and>
      (\<exists>message.
         createSignedMessage sign now now' \<lparr>payload_type = js ''state'', payload_data = st\<rparr> c
           = Inr message \<and>
         fst (sendState sign now now' st c) = c\<lparr>sent := sent c @ [JSON_stringify message]\<rparr>))"
  using sendState_unauthorized [of c sign now now' st]
    sendState_failure_keeps_client [of sign now now' st c]
    sendState_success [of sign now now' st c]
  by blast

theorem sendState_requires_authorization_witness:
  "pairing_state (new_client (js ''ext'')) \<noteq> Authorized \<and>
   sendState (\<lambda>k d. d) 999 1000 JNull (new_client (js ''ext'')) =
     (new_client (js ''ext''), Some (Error ''Not authorized. Pairing required.'')) \<and>
   sent (fst (sendState (\<lambda>k d. d) 999 1000 JNull (new_client (js ''ext'')))) = [] \<and>
   snd (sendState (\<lambda>k d. d) 1000 1000 JNull ready_client) = None \<and>
   length (sent (fst (sendState (\<lambda>k d. d) 1000 1000 JNull ready_client))) = 1"
proof -
  have h: "pairing_state (new_client (js ''ext'')) \<noteq> Authorized"
    by (simp add: new_client_def)
  have s: "sent (new_client (js ''ext'')) = []"
    by (simp add: new_client_def)
  from sendState_requires_authorization [of "new_client (js ''ext'')" "\<lambda>k d. d" 999 1000 JNull] h
  have u: "sendState (\<lambda>k d. d) 999 1000 JNull (new_client (js ''ext'')) =
      (new_client (js ''ext''), Some (Error ''Not authorized. Pairing required.''))"
    by blast
  have ok: "snd (sendState (\<lambda>k d. d) 1000 1000 JNull ready_client) = None"
    by (rule ready_client_sends)
  from sendState_requires_authorization [of ready_client "\<lambda>k d. d" 1000 1000 JNull] ok
  obtain message where "fst (sendState (\<lambda>k d. d) 1000 1000 JNull ready_client) =
      ready_client\<lparr>sent := sent ready_client @ [JSON_stringify message]\<rparr>"
    by blast
  then have "length (sent (fst (sendState (\<lambda>k d. d) 1000 1000 JNull ready_client))) = 1"
    by (simp add: ready_client_def new_client_def)
  then show ?thesis using h s u ok by simp
qed

text \<open>
  Claim C2, as the code has it. \<^verbatim>\<open>_handleServerMessage\<close> does not look at the pairing
  phase: a frame of type \<open>command\<close> is emitted at once as a \<open>command\<close> event to the
  registered handlers, in every phase, and changes nothing else in the client. Nothing
  is queued: the handling of a later \<open>handshake_success\<close> emits the \<open>connected\<close> event
  and no command.
\<close>

theorem command_is_emitted_in_every_phase:
  "handleServerMessage metadata (message\<lparr>msg_type := ''command''\<rparr>) c =
     (c\<lparr>emitted := emitted c @ [EvCommand (msg_action message) (msg_data message)]\<rparr>, None) \<and>
   emitted (fst (handleServerMessage metadata (message\<lparr>msg_type := ''handshake_success''\<rparr>) c)) =
     emitted c @ [EvConnected]"
  by (simp add: handleServerMessage_def emit_def pairing_handleMessage_def
      onPairingAuthorized_def startHeartbeat_def)

text \<open>
  Claim C2 as stated fails: a client that has never been authorized receives a command
  frame and emits the command to its handlers instead of dropping it.
\<close>

theorem command_before_authorization_is_emitted:
  "pairing_state (new_client (js ''ext'')) = Unauthorized \<and>
   emitted (fst (handleServerMessage JNull command_message (new_client (js ''ext'')))) =
     [EvCommand (Some (JStr (js ''toggle_mic''))) None]"
  by (simp add: handleServerMessage_def emit_def command_message_def new_client_def)

text \<open>
  Claim C10. In every client reached from a new one by calls, socket events and timer
  firings, the interval timers that are set are exactly the one held in
  \<open>heartbeatTimer\<close>, so there is at most one; after \<^verbatim>\<open>disconnect\<close> there is none.
  Starting the heartbeat while a timer is held changes nothing, so a second
  \<open>authorized\<close> event adds no timer; stopping it, \<^verbatim>\<open>disconnect\<close> and the closing of
  the socket clear the timer and leave no interval set.
\<close>

theorem at_most_one_heartbeat_timer:
  "one_timer (client_run sign inputs (new_client ext)) \<and>
   length (intervals (client_run sign inputs (new_client ext))) \<le> 1 \<and>
   intervals (client_step sign Disconnect (client_run sign inputs (new_client ext))) = [] \<and>
   (timer_set c \<longrightarrow> startHeartbeat c = c) \<and>
   intervals (onPairingAuthorized (onPairingAuthorized c)) = intervals (onPairingAuthorized c) \<and>
   (one_timer c \<longrightarrow>
      heartbeatTimer (stopHeartbeat c) = None \<and> intervals (stopHeartbeat c) = []) \<and>
   (one_timer c \<longrightarrow>
      heartbeatTimer (disconnect c) = None \<and> intervals (disconnect c) = []) \<and>
   (one_timer c \<longrightarrow>
      heartbeatTimer (onWebSocketDisconnected reason c) = None \<and>
      intervals (onWebSocketDisconnected reason c) = [])"
proof -
  have r: "one_timer (client_run sign inputs (new_client ext))"
    by (rule one_timer_run [OF one_timer_new])
  have d: "intervals (client_step sign Disconnect (client_run sign inputs (new_client ext))) = []"
    using one_timer_disconnect [OF r] by simp
  show ?thesis
    using r d one_timer_length [OF r] startHeartbeat_running [of c] authorized_twice [of c]
      stopHeartbeat_clears [of c] one_timer_disconnect [of c]
      one_timer_disconnected [of c reason]
    by blast
qed

theorem at_most_one_heartbeat_timer_witness:
  "intervals (client_run (\<lambda>k d. d) sample_session (new_client (js ''ext''))) = [1] \<and>
   heartbeatTimer (client_run (\<lambda>k d. d) sample_session (new_client (js ''ext''))) = Some 1 \<and>
   one_timer (client_run (\<lambda>k d. d) sample_session (new_client (js ''ext''))) \<and>
   timer_set (client_run (\<lambda>k d. d) sample_session (new_client (js ''ext''))) \<and>
   startHeartbeat (client_run (\<lambda>k d. d) sample_session (new_client (js ''ext''))) =
     client_run (\<lambda>k d. d) sample_session (new_client (js ''ext'')) \<and>
   intervals (stopHeartbeat
     (client_run (\<lambda>k d. d) sample_session (new_client (js ''ext'')))) = [] \<and>
   intervals (client_step (\<lambda>k d. d) Disconnect
     (client_run (\<lambda>k d. d) sample_session (new_client (js ''ext'')))) = []"
proof -
  let ?c = "client_run (\<lambda>k d. d) sample_session (new_client (js ''ext''))"
  note w = at_most_one_heartbeat_timer [of "\<lambda>k d. d" sample_session "js ''ext''" ?c]
  note t = sample_session_timers [of "\<lambda>k d. d"]
  from t have s: "timer_set ?c" by (simp add: timer_set_def)
  from w have o: "one_timer ?c" by blast
  from w s have "startHeartbeat ?c = ?c" by blast
  moreover from w o have "intervals (stopHeartbeat ?c) = []" by blast
  moreover from w have "intervals (client_step (\<lambda>k d. d) Disconnect ?c) = []" by blast
  ultimately show ?thesis using t s o by simp
qed

end
